theory Spec2Isabelle
  imports Main
begin

text \<open>
  A verification model of \<open>inputProcessing.cpp\<close> of C-Hero-Calc: the query
  automaton (\<open>getResistantInput\<close>), the lineup parser
  (\<open>makeInstanceFromString\<close>, \<open>makeArmyFromStrings\<close>, \<open>parseHeroString\<close>), the
  two input commands built on them, and the replay encoder.
\<close>

section \<open>Strings of the standard library\<close>

text \<open>
  A \<open>std::string\<close> is a \<open>string\<close> (a list of bytes).  The member functions that
  \<open>inputProcessing.cpp\<close> calls are modelled after the C++ standard: \<open>npos\<close> is
  \<open>None\<close>, and a function that can throw returns an \<open>option\<close> or a sum.
\<close>

text \<open>
  \<open>target.find(str, pos)\<close>: the lowest position \<open>xpos \<ge> pos\<close> with
  \<open>xpos + str.size() \<le> target.size()\<close> at which \<open>str\<close> occurs, else \<open>npos\<close>.
\<close>

function find_str :: "string \<Rightarrow> string \<Rightarrow> nat \<Rightarrow> nat option" where
  "find_str target str pos =
     (if length target < pos + length str then None
      else if take (length str) (drop pos target) = str then Some pos
      else find_str target str (pos + 1))"
  by pat_completeness auto
termination
  by (relation "measure (\<lambda>(target, str, pos). length target + 1 - pos)") auto

declare find_str.simps [simp del]

text \<open>
  \<open>s.substr(pos, count)\<close> throws \<open>out_of_range\<close> when \<open>pos > s.size()\<close> (here
  \<open>None\<close>); a \<open>count\<close> of \<open>npos\<close>, or one that reaches past the end, takes the rest.
\<close>

definition substr :: "string \<Rightarrow> nat \<Rightarrow> nat option \<Rightarrow> string option" where
  "substr s pos count =
     (if length s < pos then None
      else Some (case count of None \<Rightarrow> drop pos s | Some n \<Rightarrow> take n (drop pos s)))"

text \<open>
  The exceptions the file can meet: \<open>std::invalid_argument\<close> (from \<open>stoi\<close>) and
  \<open>std::out_of_range\<close> (from \<open>stoi\<close>, \<open>substr\<close>, \<open>map::at\<close> and
  \<open>parseHeroString\<close>).  A function that can throw returns \<open>exception + 'a\<close>.
\<close>

datatype exception = invalid_argument | out_of_range

text \<open>The position of the first occurrence of an element in a list.\<close>

fun index_of :: "'a \<Rightarrow> 'a list \<Rightarrow> nat option" where
  "index_of x [] = None"
| "index_of x (y # ys) = (if x = y then Some 0 else map_option Suc (index_of x ys))"

text \<open>
  Character classes and conversions of the "C" locale: white space is the blank
  and the five control characters from tab to carriage return.
\<close>

definition isspace :: "char \<Rightarrow> bool" where
  "isspace c = (c \<in> set [CHR '' '', CHR 0x09, CHR 0x0A, CHR 0x0B, CHR 0x0C, CHR 0x0D])"

definition isdigit :: "char \<Rightarrow> bool" where
  "isdigit c = (c \<in> set ''0123456789'')"

definition digit_value :: "char \<Rightarrow> int" where
  "digit_value c = (case index_of c ''0123456789'' of None \<Rightarrow> 0 | Some k \<Rightarrow> int k)"

definition tolower :: "char \<Rightarrow> char" where
  "tolower c =
     (case index_of c ''ABCDEFGHIJKLMNOPQRSTUVWXYZ'' of
        None \<Rightarrow> c
      | Some k \<Rightarrow> ''abcdefghijklmnopqrstuvwxyz'' ! k)"

definition digits_value :: "string \<Rightarrow> int" where
  "digits_value ds = foldl (\<lambda>acc c. 10 * acc + digit_value c) 0 ds"

text \<open>
  \<open>std::stoi(str, &pos)\<close>, which is \<open>strtol\<close> in base 10 on the bytes of
  \<open>str\<close>: leading white space is skipped, one sign is optional, and the longest
  run of decimal digits that follows is the number.  No digit at all is
  \<open>invalid_argument\<close>; a value outside the range of a 32-bit \<open>int\<close> is
  \<open>out_of_range\<close>.  What follows the digits is not looked at: \<open>pos\<close>, the second
  component of the result, is the number of characters that were used.
\<close>

definition stoi_pos :: "string \<Rightarrow> exception + (int \<times> nat)" where
  "stoi_pos str =
     (let blanks = takeWhile isspace str;
          s1 = dropWhile isspace str;
          sign = (case s1 of [] \<Rightarrow> []
                  | c # _ \<Rightarrow> if c = CHR ''-'' \<or> c = CHR ''+'' then [c] else []);
          ds = takeWhile isdigit (drop (length sign) s1);
          v = (if sign = ''-'' then - digits_value ds else digits_value ds)
      in if ds = [] then Inl invalid_argument
         else if v < - (2 ^ 31) \<or> 2 ^ 31 - 1 < v then Inl out_of_range
         else Inr (v, length blanks + length sign + length ds))"

definition stoi :: "string \<Rightarrow> exception + int" where
  "stoi str = (case stoi_pos str of Inl e \<Rightarrow> Inl e | Inr (v, pos) \<Rightarrow> Inr v)"

text \<open>\<open>std::to_string\<close> and \<open>operator<<\<close> on an integer: its decimal digits.\<close>

fun digits_of :: "nat \<Rightarrow> string" where
  "digits_of n =
     (if n < 10 then [''0123456789'' ! n]
      else digits_of (n div 10) @ [''0123456789'' ! (n mod 10)])"

declare digits_of.simps [simp del]

definition to_string :: "int \<Rightarrow> string" where
  "to_string i = (if i < 0 then CHR ''-'' # digits_of (nat (- i)) else digits_of (nat i))"

text \<open>
  \<open>toLower\<close>: \<open>tolower\<close> of the global locale on every character (a program that
  never sets the global locale has the "C" locale).
\<close>

definition toLower :: "string \<Rightarrow> string" where
  "toLower input = map tolower input"

section \<open>split\<close>

text \<open>
  The loop of \<open>split\<close>.  \<open>occurrence\<close> is \<open>npos\<close> exactly when \<open>find_str\<close> gives
  \<open>None\<close>; the loop then pushes the rest of the target and ends.  Otherwise the
  count \<open>occurrence - start\<close> is exact (the occurrence is not before \<open>start\<close>) and
  the loop goes on behind the separator.  The result \<open>None\<close> stands for a call that
  returns no vector: the loop runs forever, or \<open>substr\<close> throws.
\<close>

partial_function (option) split_loop ::
  "string \<Rightarrow> string \<Rightarrow> nat \<Rightarrow> string list \<Rightarrow> string list option" where
  "split_loop target separator start output =
     (case find_str target separator start of
        None \<Rightarrow>
          (case substr target start None of
             None \<Rightarrow> None
           | Some substring \<Rightarrow>
               Some (if start = 0 \<or> 0 < length substring then output @ [substring]
                     else output))
      | Some occurrence \<Rightarrow>
          (case substr target start (Some (occurrence - start)) of
             None \<Rightarrow> None
           | Some substring \<Rightarrow>
               split_loop target separator (occurrence + length separator)
                 (if start = 0 \<or> 0 < length substring then output @ [substring]
                  else output)))"

declare split_loop.simps [code]

definition split :: "string \<Rightarrow> string \<Rightarrow> string list option" where
  "split target separator = split_loop target separator 0 []"

text \<open>
  \<open>v[0]\<close> on a \<open>std::vector\<close>: undefined on an empty vector, which the model
  reports as \<open>None\<close>.
\<close>

definition at0 :: "'a list \<Rightarrow> 'a option" where
  "at0 v = (case v of [] \<Rightarrow> None | x # _ \<Rightarrow> Some x)"

section \<open>Constants of the header\<close>

text \<open>
  The constants that \<open>inputProcessing.cpp\<close> takes from its header are parameters of
  the model, under their names in the code.
\<close>

record config =
  COMMENT_DELIMITOR :: string
  TOKEN_SEPARATOR :: string
  POSITIVE_ANSWER :: string
  NEGATIVE_ANSWER :: string
  QUEST_PREFIX :: string
  QUEST_NUMBER_SEPARTOR :: string
  ELEMENT_SEPARATOR :: string
  HEROLEVEL_SEPARATOR :: string
  ARMY_MAX_SIZE :: nat
  TOURNAMENT_LINES :: nat
  REPLAY_EMPTY_SPOT :: int
  heroInputHelp :: string
  lineupInputHelp :: string

datatype QueryType = question | integer | raw | rawFirst

section \<open>Input streams\<close>

text \<open>
  A \<open>std::istream\<close>: the characters not yet read and the two state bits that
  \<open>getline\<close> reads and sets.  A stream is \<open>good\<close> when neither bit is set, and
  converts to \<open>true\<close> when \<open>failbit\<close> is not set.
\<close>

record istream =
  content :: string
  eofbit :: bool
  failbit :: bool

definition endl :: string where
  "endl = [CHR 0x0A]"

text \<open>
  \<open>std::getline(strm, str)\<close>.  On a stream that is not good the sentry fails:
  \<open>failbit\<close> is set and \<open>str\<close> keeps its value.  Otherwise \<open>str\<close> is erased and
  takes the characters up to the next newline, which is read and dropped; when the
  end of the stream comes first \<open>eofbit\<close> is set, and \<open>failbit\<close> too if no
  character was read.
\<close>

definition getline :: "istream \<Rightarrow> string \<Rightarrow> istream \<times> string" where
  "getline strm str =
     (if eofbit strm \<or> failbit strm then (strm\<lparr>failbit := True\<rparr>, str)
      else
        (let line = takeWhile (\<lambda>c. c \<noteq> CHR 0x0A) (content strm)
         in case dropWhile (\<lambda>c. c \<noteq> CHR 0x0A) (content strm) of
              [] \<Rightarrow> (strm\<lparr>content := [], eofbit := True, failbit := (line = [])\<rparr>, line)
            | _ # rest \<Rightarrow> (strm\<lparr>content := rest\<rparr>, line)))"

section \<open>The IOManager and the query automaton\<close>

text \<open>
  The fields of \<open>IOManager\<close> that the automaton uses, with the two standard streams
  it reads and writes: \<open>cout\<close> is everything written so far.
\<close>

record session =
  useMacroFile :: bool
  showQueries :: bool
  macroFile :: istream
  cin :: istream
  cout :: string

text \<open>
  The constructor, and \<open>initMacroFile\<close>.  The macro file of a new \<open>IOManager\<close> is
  a stream with no file behind it, from which nothing can be read.  \<open>file\<close> is the
  content of the file named \<open>macroFileName\<close>, or \<open>None\<close> when it cannot be opened:
  \<open>open\<close> then sets \<open>failbit\<close>.
\<close>

definition IOManager :: "istream \<Rightarrow> session" where
  "IOManager stdin =
     \<lparr>useMacroFile = False, showQueries = True,
      macroFile = \<lparr>content = [], eofbit = False, failbit = False\<rparr>,
      cin = stdin, cout = []\<rparr>"

definition initMacroFile :: "string option \<Rightarrow> bool \<Rightarrow> session \<Rightarrow> session" where
  "initMacroFile file showInput s =
     (let opened = (case file of
                      None \<Rightarrow> \<lparr>content = [], eofbit = False, failbit = True\<rparr>
                    | Some text \<Rightarrow> \<lparr>content = text, eofbit = False, failbit = False\<rparr>);
          good = (\<not> eofbit opened \<and> \<not> failbit opened);
          s1 = s\<lparr>macroFile := opened, useMacroFile := good, showQueries := (good \<and> showInput)\<rparr>
      in if \<not> good
         then s1\<lparr>cout := cout s1 @ ''Could not find Macro File. Switching to Manual Input.'' @ endl\<rparr>
         else s1)"

text \<open>
  Lines 96 to 106 of \<open>getResistantInput\<close>, the reading part of one turn of its
  loop: a line of the macro file while \<open>useMacroFile\<close> holds, which becomes the
  success of that read; the query on \<open>cout\<close>; a line of \<open>cin\<close> when the macro file
  is not, or no longer, in use.  The result is the new value of \<open>inputString\<close>.
\<close>

definition read_input :: "string \<Rightarrow> string \<Rightarrow> session \<Rightarrow> string \<times> session" where
  "read_input query inputString s =
     (let (inputString1, s1) =
            (if useMacroFile s
             then (let (mf, str) = getline (macroFile s) inputString
                   in (str, s\<lparr>macroFile := mf, useMacroFile := \<not> failbit mf\<rparr>))
             else (inputString, s));
          s2 = (if \<not> useMacroFile s1 \<or> showQueries s1 then s1\<lparr>cout := cout s1 @ query\<rparr> else s1)
      in if \<not> useMacroFile s2
         then (let (ci, str) = getline (cin s2) inputString1 in (str, s2\<lparr>cin := ci\<rparr>))
         else (inputString1, s2))"

text \<open>
  Lines 109 and 110: the line in lower case up to the first comment delimiter, and
  its first token.  \<open>None\<close> when a call of \<open>split\<close> returns nothing or \<open>[0]\<close> is out
  of bounds.
\<close>

definition process_input :: "config \<Rightarrow> string \<Rightarrow> (string \<times> string) option" where
  "process_input cfg inputString =
     (case split (toLower inputString) (COMMENT_DELIMITOR cfg) of
        None \<Rightarrow> None
      | Some v \<Rightarrow>
          (case at0 v of
             None \<Rightarrow> None
           | Some inputString' \<Rightarrow>
               (case split inputString' (TOKEN_SEPARATOR cfg) of
                  None \<Rightarrow> None
                | Some w \<Rightarrow>
                    (case at0 w of
                       None \<Rightarrow> None
                     | Some firstToken \<Rightarrow> Some (inputString', firstToken)))))"

text \<open>
  Lines 117 to 131, the branch of a line that is not a call for help: the answer
  that is returned, or \<open>None\<close> when the loop goes on.  For \<open>integer\<close> the token is
  returned when \<open>stoi\<close> does not throw.
\<close>

definition validate :: "config \<Rightarrow> QueryType \<Rightarrow> string \<Rightarrow> string \<Rightarrow> string option" where
  "validate cfg queryType inputString firstToken =
     (if queryType = question \<and>
         (firstToken = POSITIVE_ANSWER cfg \<or> firstToken = NEGATIVE_ANSWER cfg)
      then Some firstToken
      else if queryType = integer \<and> \<not> isl (stoi firstToken) then Some firstToken
      else if queryType = raw then Some inputString
      else if queryType = rawFirst then Some firstToken
      else None)"

text \<open>Lines 111 to 113: a line of the macro file is shown when queries are shown.\<close>

definition echo_input :: "string \<Rightarrow> session \<Rightarrow> session" where
  "echo_input inputString s =
     (if useMacroFile s \<and> showQueries s then s\<lparr>cout := cout s @ inputString @ endl\<rparr> else s)"

text \<open>
  The loop of \<open>getResistantInput\<close>, with the local \<open>inputString\<close> as an argument.
  \<open>None\<close> is a call that does not return.
\<close>

partial_function (option) getResistantInput_loop ::
  "config \<Rightarrow> string \<Rightarrow> string \<Rightarrow> QueryType \<Rightarrow> string \<Rightarrow> session \<Rightarrow> (string \<times> session) option"
where
  "getResistantInput_loop cfg query help queryType inputString s =
     (case read_input query inputString s of
        (line, s1) \<Rightarrow>
          (case process_input cfg line of
             None \<Rightarrow> None
           | Some (inputString', firstToken) \<Rightarrow>
               if firstToken = ''help''
               then getResistantInput_loop cfg query help queryType inputString'
                      ((echo_input inputString' s1)\<lparr>cout := cout (echo_input inputString' s1) @ help\<rparr>)
               else (case validate cfg queryType inputString' firstToken of
                       Some answer \<Rightarrow> Some (answer, echo_input inputString' s1)
                     | None \<Rightarrow>
                         getResistantInput_loop cfg query help queryType inputString'
                           (echo_input inputString' s1))))"

declare getResistantInput_loop.simps [code]

definition getResistantInput ::
  "config \<Rightarrow> string \<Rightarrow> string \<Rightarrow> QueryType \<Rightarrow> session \<Rightarrow> (string \<times> session) option" where
  "getResistantInput cfg query help queryType s =
     getResistantInput_loop cfg query help queryType [] s"

text \<open>
  A session of the automaton: queries, each with its help text and its type,
  resolved one after the other by the same \<open>IOManager\<close>.  The result is the list
  of the answers and the state behind the last one.
\<close>

fun ask_all ::
  "config \<Rightarrow> (string \<times> string \<times> QueryType) list \<Rightarrow> session \<Rightarrow> (string list \<times> session) option"
where
  "ask_all cfg [] s = Some ([], s)"
| "ask_all cfg ((query, help, queryType) # rest) s =
     (case getResistantInput cfg query help queryType s of
        None \<Rightarrow> None
      | Some (answer, s1) \<Rightarrow>
          (case ask_all cfg rest s1 of
             None \<Rightarrow> None
           | Some (answers, s2) \<Rightarrow> Some (answer # answers, s2)))"

section \<open>Monsters, armies and the static tables\<close>

text \<open>
  Modelled from the spec: the types \<open>Monster\<close>, \<open>Army\<close> and \<open>Instance\<close> and the
  global tables are declared outside \<open>inputProcessing.cpp\<close>.  A \<open>Monster\<close> has a
  name, a base name shared by the levels of a hero, a rarity whose value
  \<open>NO_HERO\<close> marks the units that are not heroes, and a level.  The spec does not
  name the other values of the rarity, those of heroes; they are numbered here.
\<close>

datatype HeroRarity = NO_HERO | HERO nat

record Monster =
  name :: string
  baseName :: string
  rarity :: HeroRarity
  level :: int

text \<open>
  Modelled from the spec: an \<open>Army\<close> is a sequence of slots and the count
  \<open>monsterAmount\<close> of those in use.  The code shows that a slot holds an index
  into \<open>monsterReference\<close>.  Slots from \<open>monsterAmount\<close> on carry no meaning.
\<close>

record Army =
  monsters :: "int list"
  monsterAmount :: int

record Instance =
  target :: Army
  maxCombatants :: int
  targetSize :: int

text \<open>
  Modelled from the spec: \<open>baseHeroes\<close> is the ordered list of hero templates,
  \<open>monsterBaseList\<close> the canonical list of monsters, \<open>monsterReference\<close> the table
  that the indices of an army point into, \<open>monsterMap\<close> the lookup of a monster's
  index by its exact name, and \<open>quests\<close> the mapping from a quest number to its
  list of names; both are lists of pairs, looked up by key with \<open>map_of\<close>.
\<close>

record database =
  baseHeroes :: "Monster list"
  monsterBaseList :: "Monster list"
  monsterReference :: "Monster list"
  monsterMap :: "(string \<times> int) list"
  quests :: "(int \<times> string list) list"

text \<open>
  Modelled from the spec: a new \<open>Army\<close> is empty, and \<open>Army::add\<close> puts a unit
  behind those already there, so that insertion order is kept.  The spec bounds an
  army by \<open>ARMY_MAX_SIZE\<close> and gives \<open>add\<close> no behaviour beyond it: the bound is
  not checked here, and the theorem on quest references asks for a quest within
  the bound.
\<close>

definition empty_Army :: Army where
  "empty_Army = \<lparr>monsters = [], monsterAmount = 0\<rparr>"

definition add :: "Army \<Rightarrow> int \<Rightarrow> Army" where
  "add army m =
     \<lparr>monsters = take (nat (monsterAmount army)) (monsters army) @ [m],
      monsterAmount = monsterAmount army + 1\<rparr>"

text \<open>
  Modelled from the spec: \<open>addLeveledHero\<close> registers the hero at the given level
  and returns its index in \<open>monsterReference\<close>; asking for the same hero and
  level again yields the entry already there, not a second one.
\<close>

definition addLeveledHero :: "Monster \<Rightarrow> int \<Rightarrow> database \<Rightarrow> int \<times> database" where
  "addLeveledHero hero lvl db =
     (let m = hero\<lparr>level := lvl\<rparr>
      in case index_of m (monsterReference db) of
           Some i \<Rightarrow> (int i, db)
         | None \<Rightarrow> (int (length (monsterReference db)),
                     db\<lparr>monsterReference := monsterReference db @ [m]\<rparr>))"

text \<open>
  Modelled from the spec: \<open>quests[questNumber]\<close>, the read of the quest table
  with \<open>operator[]\<close>.  It throws for no number, unlike the \<open>at\<close> of \<open>monsterMap\<close>.
  For a number with an entry it is the list of names of that quest; for a number
  with none the read goes on all the same, and the list read there is taken to be
  the empty one, the value of an entry that was never filled.
\<close>

definition quests_at :: "database \<Rightarrow> int \<Rightarrow> string list" where
  "quests_at db questNumber =
     (case map_of (quests db) questNumber of
        Some quest \<Rightarrow> quest
      | None \<Rightarrow> [])"

section \<open>The lineup parser\<close>

text \<open>
  \<open>parseHeroString\<close>.  The name is the part before the level separator (all of the
  string when there is none); the level is \<open>stoi\<close> of the part behind it, where
  \<open>npos + 1\<close> wraps to \<open>0\<close>.  The hero is the first template with that base name.
\<close>

definition parseHeroString :: "config \<Rightarrow> database \<Rightarrow> string \<Rightarrow> exception + (Monster \<times> int)" where
  "parseHeroString cfg db heroString =
     (let found = find_str heroString (HEROLEVEL_SEPARATOR cfg) 0
      in case substr heroString 0 found of
           None \<Rightarrow> Inl out_of_range
         | Some name' \<Rightarrow>
             (case substr heroString (case found of None \<Rightarrow> 0 | Some p \<Rightarrow> p + 1) None of
                None \<Rightarrow> Inl out_of_range
              | Some digits \<Rightarrow>
                  (case stoi digits of
                     Inl e \<Rightarrow> Inl e
                   | Inr lvl \<Rightarrow>
                       (case List.find (\<lambda>b. baseName b = name') (baseHeroes db) of
                          Some hero \<Rightarrow> Inr (hero, lvl)
                        | None \<Rightarrow> Inl out_of_range))))"

text \<open>
  The loop of \<open>makeArmyFromStrings\<close>.  An exception leaves the loop at once; what
  \<open>addLeveledHero\<close> has registered until then stays registered, so the tables are
  returned in both cases.
\<close>

fun makeArmyFromStrings_loop ::
  "config \<Rightarrow> string list \<Rightarrow> Army \<Rightarrow> database \<Rightarrow> (exception + Army) \<times> database" where
  "makeArmyFromStrings_loop cfg [] army db = (Inr army, db)"
| "makeArmyFromStrings_loop cfg (stringMonster # rest) army db =
     (if find_str stringMonster (HEROLEVEL_SEPARATOR cfg) 0 \<noteq> None
      then (case parseHeroString cfg db stringMonster of
              Inl e \<Rightarrow> (Inl e, db)
            | Inr heroData \<Rightarrow>
                (case addLeveledHero (fst heroData) (snd heroData) db of
                   (m, db') \<Rightarrow> makeArmyFromStrings_loop cfg rest (add army m) db'))
      else (case map_of (monsterMap db) stringMonster of
              None \<Rightarrow> (Inl out_of_range, db)
            | Some m \<Rightarrow> makeArmyFromStrings_loop cfg rest (add army m) db))"

definition makeArmyFromStrings ::
  "config \<Rightarrow> string list \<Rightarrow> database \<Rightarrow> (exception + Army) \<times> database" where
  "makeArmyFromStrings cfg stringMonsters db =
     makeArmyFromStrings_loop cfg stringMonsters empty_Army db"

text \<open>
  \<open>makeInstanceFromString\<close>.  \<open>dashPosition\<close> is \<open>-1\<close> when there is no
  separator.  The count \<open>dashPosition - QUEST_PREFIX.length()\<close> is computed in
  \<open>size_t\<close>: below zero it wraps to a count that reaches past the end, which
  \<open>substr\<close> takes as the rest.  The tier is \<open>stoi\<close> of the one character at
  \<open>dashPosition + 1\<close>.  The quest is read with \<open>quests[questNumber]\<close>, which
  does not throw for any number.  The result is \<open>None\<close> when the call does not
  return, because \<open>split\<close> does not.
\<close>

definition makeInstanceFromString ::
  "config \<Rightarrow> string \<Rightarrow> database \<Rightarrow> ((exception + Instance) \<times> database) option" where
  "makeInstanceFromString cfg instanceString db =
     (let dashPosition = (case find_str instanceString (QUEST_NUMBER_SEPARTOR cfg) 0 of
                            None \<Rightarrow> - 1 | Some p \<Rightarrow> int p);
          prefix_length = length (QUEST_PREFIX cfg)
      in if take prefix_length instanceString = QUEST_PREFIX cfg
         then Some
           (case substr instanceString prefix_length
                   (if int prefix_length \<le> dashPosition
                    then Some (nat dashPosition - prefix_length) else None) of
              None \<Rightarrow> (Inl out_of_range, db)
            | Some number \<Rightarrow>
                (case stoi number of
                   Inl e \<Rightarrow> (Inl e, db)
                 | Inr questNumber \<Rightarrow>
                     (case makeArmyFromStrings cfg (quests_at db questNumber) db of
                        (Inl e, db') \<Rightarrow> (Inl e, db')
                      | (Inr army, db') \<Rightarrow>
                          (case substr instanceString (nat (dashPosition + 1)) (Some 1) of
                             None \<Rightarrow> (Inl out_of_range, db')
                           | Some tier \<Rightarrow>
                               (case stoi tier of
                                  Inl e \<Rightarrow> (Inl e, db')
                                | Inr t \<Rightarrow>
                                    (Inr \<lparr>target = army,
                                          maxCombatants = int (ARMY_MAX_SIZE cfg) - (t - 1),
                                          targetSize = monsterAmount army\<rparr>, db'))))))
         else
           (case split instanceString (ELEMENT_SEPARATOR cfg) of
              None \<Rightarrow> None
            | Some stringLineup \<Rightarrow> Some
                (case makeArmyFromStrings cfg stringLineup db of
                   (Inl e, db') \<Rightarrow> (Inl e, db')
                 | (Inr army, db') \<Rightarrow>
                     (Inr \<lparr>target = army, maxCombatants = int (ARMY_MAX_SIZE cfg),
                           targetSize = monsterAmount army\<rparr>, db'))))"

section \<open>The input commands\<close>

text \<open>
  The \<open>for\<close> loop of \<open>takeInstanceInput\<close>: every token in turn, pushed onto
  \<open>instances\<close> when it parses; the first exception ends the loop.  \<open>None\<close> when
  a call of \<open>makeInstanceFromString\<close> does not return.
\<close>

fun makeInstances_loop ::
  "config \<Rightarrow> string list \<Rightarrow> Instance list \<Rightarrow> database \<Rightarrow>
     ((exception + Instance list) \<times> database) option"
where
  "makeInstances_loop cfg [] instances db = Some (Inr instances, db)"
| "makeInstances_loop cfg (instanceString # rest) instances db =
     (case makeInstanceFromString cfg instanceString db of
        None \<Rightarrow> None
      | Some (Inl e, db') \<Rightarrow> Some (Inl e, db')
      | Some (Inr instance, db') \<Rightarrow>
          makeInstances_loop cfg rest (instances @ [instance]) db')"

text \<open>
  \<open>takeInstanceInput\<close>: a raw line from the automaton, \<open>instances\<close> cleared, the
  line split into tokens and parsed; the vector is returned when no token throws,
  and the caught exception starts the loop again.
\<close>

partial_function (option) takeInstanceInput ::
  "config \<Rightarrow> string \<Rightarrow> session \<Rightarrow> database \<Rightarrow> (Instance list \<times> session \<times> database) option"
where
  "takeInstanceInput cfg prompt s db =
     (case getResistantInput cfg prompt (lineupInputHelp cfg) raw s of
        None \<Rightarrow> None
      | Some (input, s1) \<Rightarrow>
          (case split input (TOKEN_SEPARATOR cfg) of
             None \<Rightarrow> None
           | Some instanceStrings \<Rightarrow>
               (case makeInstances_loop cfg instanceStrings [] db of
                  None \<Rightarrow> None
                | Some (Inr instances, db') \<Rightarrow> Some (instances, s1, db')
                | Some (Inl e, db') \<Rightarrow> takeInstanceInput cfg prompt s1 db')))"

declare takeInstanceInput.simps [code]

text \<open>The conversion to \<open>int8_t\<close> keeps the low eight bits, read as two's complement.\<close>

definition int8_t :: "int \<Rightarrow> int" where
  "int8_t x = (x + 128) mod 256 - 128"

text \<open>
  The body of the \<open>do\<close> loop of \<open>takeHerolevelInput\<close> behind the query: the new
  values of \<open>heroes\<close> and \<open>cancelCounter\<close>.  An exception of \<open>parseHeroString\<close> is
  caught and dropped.  \<open>heroes\<close> is a vector of \<open>int8_t\<close>: the index that
  \<open>addLeveledHero\<close> returns is converted when it is pushed.
\<close>

definition collect_hero ::
  "config \<Rightarrow> string \<Rightarrow> int list \<Rightarrow> int \<Rightarrow> database \<Rightarrow> int list \<times> int \<times> database" where
  "collect_hero cfg input heroes cancelCounter db =
     (if input = [] then (heroes, cancelCounter + 1, db)
      else (case parseHeroString cfg db input of
              Inl e \<Rightarrow> (heroes, 0, db)
            | Inr heroData \<Rightarrow>
                (case addLeveledHero (fst heroData) (snd heroData) db of
                   (m, db') \<Rightarrow> (heroes @ [int8_t m], 0, db'))))"

partial_function (option) takeHerolevelInput_loop ::
  "config \<Rightarrow> int list \<Rightarrow> int \<Rightarrow> session \<Rightarrow> database \<Rightarrow> (int list \<times> session \<times> database) option"
where
  "takeHerolevelInput_loop cfg heroes cancelCounter s db =
     (case getResistantInput cfg
             (''Enter Hero '' @ to_string (int (length heroes) + 1) @ '': '')
             (heroInputHelp cfg) rawFirst s of
        None \<Rightarrow> None
      | Some (input, s1) \<Rightarrow>
          (case collect_hero cfg input heroes cancelCounter db of
             (heroes', cancelCounter', db') \<Rightarrow>
               if input \<noteq> ''done'' \<and> cancelCounter' < 2
               then takeHerolevelInput_loop cfg heroes' cancelCounter' s1 db'
               else Some (heroes', s1, db')))"

declare takeHerolevelInput_loop.simps [code]

text \<open>
  \<open>takeHerolevelInput\<close>: lines 160 to 163, the two lines of introduction, written
  when no macro file is in use or queries are shown; then the loop, from no heroes
  and a counter of \<open>0\<close>.
\<close>

definition hero_introduction :: "session \<Rightarrow> session" where
  "hero_introduction s =
     (if \<not> useMacroFile s \<or> showQueries s
      then s\<lparr>cout := cout s @ endl
               @ ''Enter your Heroes with levels. Press enter after every Hero.'' @ endl
               @ ''Press enter twice or type done to proceed without inputting additional Heroes.''
               @ endl\<rparr>
      else s)"

definition takeHerolevelInput ::
  "config \<Rightarrow> session \<Rightarrow> database \<Rightarrow> (int list \<times> session \<times> database) option" where
  "takeHerolevelInput cfg s db = takeHerolevelInput_loop cfg [] 0 (hero_introduction s) db"

section \<open>The replay encoder\<close>

text \<open>
  \<open>v[i]\<close> on a vector or an array: outside the bounds the behaviour is undefined,
  which the model reports as \<open>None\<close>.
\<close>

definition vec_at :: "'a list \<Rightarrow> int \<Rightarrow> 'a option" where
  "vec_at v i = (if 0 \<le> i \<and> i < int (length v) then Some (v ! nat i) else None)"

text \<open>
  The two loops of \<open>getReplayMonsterNumber\<close>, from position \<open>i\<close> on.  Neither
  stops at a match, so the last match decides.
\<close>

fun hero_index_loop :: "Monster list \<Rightarrow> Monster \<Rightarrow> nat \<Rightarrow> int \<Rightarrow> int" where
  "hero_index_loop [] monster i index = index"
| "hero_index_loop (b # bs) monster i index =
     hero_index_loop bs monster (i + 1)
       (if baseName b = baseName monster then int8_t (- int i - 2) else index)"

fun monster_index_loop :: "Monster list \<Rightarrow> Monster \<Rightarrow> nat \<Rightarrow> int \<Rightarrow> int" where
  "monster_index_loop [] monster i index = index"
| "monster_index_loop (b # bs) monster i index =
     monster_index_loop bs monster (i + 1)
       (if name monster = name b then int8_t (int i) else index)"

definition getReplayMonsterNumber :: "config \<Rightarrow> database \<Rightarrow> Monster \<Rightarrow> string" where
  "getReplayMonsterNumber cfg db monster =
     to_string
       (if rarity monster \<noteq> NO_HERO
        then hero_index_loop (baseHeroes db) monster 0 (int8_t (REPLAY_EMPTY_SPOT cfg))
        else monster_index_loop (monsterBaseList db) monster 0 (int8_t (REPLAY_EMPTY_SPOT cfg)))"

text \<open>What one turn of the loop of \<open>getReplaySetup\<close> writes for slot \<open>i\<close>.\<close>

definition replay_slot :: "config \<Rightarrow> database \<Rightarrow> Army \<Rightarrow> nat \<Rightarrow> string option" where
  "replay_slot cfg db setup i =
     (if int (i mod ARMY_MAX_SIZE cfg) < monsterAmount setup
      then (case vec_at (monsters setup)
                   (monsterAmount setup - int (i mod ARMY_MAX_SIZE cfg) - 1) of
              None \<Rightarrow> None
            | Some m \<Rightarrow>
                (case vec_at (monsterReference db) m of
                   None \<Rightarrow> None
                 | Some monster \<Rightarrow> Some (getReplayMonsterNumber cfg db monster)))
      else Some (to_string (REPLAY_EMPTY_SPOT cfg)))"

function getReplaySetup_loop ::
  "config \<Rightarrow> database \<Rightarrow> Army \<Rightarrow> nat \<Rightarrow> string \<Rightarrow> string option" where
  "getReplaySetup_loop cfg db setup i stringSetup =
     (if i < ARMY_MAX_SIZE cfg * TOURNAMENT_LINES cfg
      then (case replay_slot cfg db setup i of
              None \<Rightarrow> None
            | Some slot \<Rightarrow>
                getReplaySetup_loop cfg db setup (i + 1)
                  (stringSetup @ slot @
                   (if i < ARMY_MAX_SIZE cfg * TOURNAMENT_LINES cfg - 1 then '','' else [])))
      else Some stringSetup)"
  by pat_completeness auto
termination
  by (relation "measure (\<lambda>(cfg, db, setup, i, stringSetup).
                  ARMY_MAX_SIZE cfg * TOURNAMENT_LINES cfg - i)") auto

declare getReplaySetup_loop.simps [simp del]

definition getReplaySetup :: "config \<Rightarrow> database \<Rightarrow> Army \<Rightarrow> string option" where
  "getReplaySetup cfg db setup =
     map_option (\<lambda>stringSetup. stringSetup @ '']'') (getReplaySetup_loop cfg db setup 0 ''['')"

text \<open>
  The inner loop of \<open>getReplayHeroes\<close> for one template, from slot \<open>j\<close> on: the
  level of the first hero of the army with the base name of the template, else the
  \<open>0\<close> that \<open>level\<close> starts with.
\<close>

function hero_level_loop :: "database \<Rightarrow> Army \<Rightarrow> Monster \<Rightarrow> nat \<Rightarrow> int option" where
  "hero_level_loop db setup base j =
     (if int j < monsterAmount setup
      then (case vec_at (monsters setup) (int j) of
              None \<Rightarrow> None
            | Some m \<Rightarrow>
                (case vec_at (monsterReference db) m of
                   None \<Rightarrow> None
                 | Some monster \<Rightarrow>
                     if rarity monster \<noteq> NO_HERO \<and> baseName monster = baseName base
                     then Some (level monster)
                     else hero_level_loop db setup base (j + 1)))
      else Some 0)"
  by pat_completeness auto
termination
  by (relation "measure (\<lambda>(db, setup, base, j). nat (monsterAmount setup) - j)") auto

declare hero_level_loop.simps [simp del]

fun getReplayHeroes_loop :: "database \<Rightarrow> Army \<Rightarrow> Monster list \<Rightarrow> string \<Rightarrow> string option" where
  "getReplayHeroes_loop db setup [] heroes = Some heroes"
| "getReplayHeroes_loop db setup (b # bs) heroes =
     (case hero_level_loop db setup b 0 of
        None \<Rightarrow> None
      | Some lvl \<Rightarrow>
          getReplayHeroes_loop db setup bs
            (heroes @ to_string lvl @ (if bs \<noteq> [] then '','' else [])))"

definition getReplayHeroes :: "database \<Rightarrow> Army \<Rightarrow> string option" where
  "getReplayHeroes db setup =
     map_option (\<lambda>heroes. heroes @ '']'') (getReplayHeroes_loop db setup (baseHeroes db) ''['')"

text \<open>
  \<open>makeBattleReplay\<close>.  \<open>now\<close> is the value of \<open>time(NULL)\<close>, and \<open>base64_encode\<close>,
  which is not part of this file, is a parameter.
\<close>

definition replay_json ::
  "config \<Rightarrow> database \<Rightarrow> int \<Rightarrow> Army \<Rightarrow> Army \<Rightarrow> string option" where
  "replay_json cfg db now friendly hostile =
     (case getReplaySetup cfg db friendly of None \<Rightarrow> None | Some setup \<Rightarrow>
      case getReplayHeroes db friendly of None \<Rightarrow> None | Some shero \<Rightarrow>
      case getReplaySetup cfg db hostile of None \<Rightarrow> None | Some player \<Rightarrow>
      case getReplayHeroes db hostile of None \<Rightarrow> None | Some phero \<Rightarrow>
        Some (''{'' @ ''\"winner\"'' @ '':'' @ ''\"Unknown\"'' @ '',''
              @ ''\"left\"'' @ '':'' @ ''\"Solution\"'' @ '',''
              @ ''\"right\"'' @ '':'' @ ''\"Instance\"'' @ '',''
              @ ''\"date\"'' @ '':'' @ to_string now @ '',''
              @ ''\"title\"'' @ '':'' @ ''\"Proposed Solution\"'' @ '',''
              @ ''\"setup\"'' @ '':'' @ setup @ '',''
              @ ''\"shero\"'' @ '':'' @ shero @ '',''
              @ ''\"player\"'' @ '':'' @ player @ '',''
              @ ''\"phero\"'' @ '':'' @ phero
              @ ''}''))"

definition makeBattleReplay ::
  "(string \<Rightarrow> string) \<Rightarrow> config \<Rightarrow> database \<Rightarrow> int \<Rightarrow> Army \<Rightarrow> Army \<Rightarrow> string option" where
  "makeBattleReplay base64_encode cfg db now friendly hostile =
     map_option base64_encode (replay_json cfg db now friendly hostile)"

section \<open>Notions of the specification\<close>

text \<open>
  The printed form of an array: its entries with the separator between them.
\<close>

fun join :: "string \<Rightarrow> string list \<Rightarrow> string" where
  "join sep [] = []"
| "join sep [x] = x"
| "join sep (x # y # ys) = x @ sep @ join sep (y # ys)"

text \<open>
  The units of an army in insertion order: the monsters that its slots in use
  point to.  An army is well formed for the tables when every slot in use exists
  and holds an index into \<open>monsterReference\<close>.
\<close>

definition units :: "database \<Rightarrow> Army \<Rightarrow> Monster list" where
  "units db setup =
     map (\<lambda>j. monsterReference db ! nat (monsters setup ! j)) [0..<nat (monsterAmount setup)]"

definition well_formed :: "database \<Rightarrow> Army \<Rightarrow> bool" where
  "well_formed db setup =
     (nat (monsterAmount setup) \<le> length (monsters setup) \<and>
      (\<forall>j \<in> {0..<nat (monsterAmount setup)}.
         0 \<le> monsters setup ! j \<and> monsters setup ! j < int (length (monsterReference db))))"

text \<open>
  Two values of type \<open>Army\<close> are the same army when they have the same count and
  the same slots in use.
\<close>

definition same_units :: "Army \<Rightarrow> Army \<Rightarrow> bool" where
  "same_units a b =
     (monsterAmount a = monsterAmount b \<and>
      take (nat (monsterAmount a)) (monsters a) = take (nat (monsterAmount a)) (monsters b))"

text \<open>The position of the last element of a list with a property.\<close>

fun last_index :: "('a \<Rightarrow> bool) \<Rightarrow> 'a list \<Rightarrow> nat option" where
  "last_index P [] = None"
| "last_index P (x # xs) =
     (case last_index P xs of
        Some k \<Rightarrow> Some (Suc k)
      | None \<Rightarrow> if P x then Some 0 else None)"

text \<open>
  The position of a monster in the canonical list, by its name, and the index of
  a hero in the registry, by its base name.  Where a name occurs more than once
  the loops of \<open>getReplayMonsterNumber\<close> keep the last occurrence.
\<close>

definition monster_position :: "database \<Rightarrow> Monster \<Rightarrow> nat option" where
  "monster_position db monster = last_index (\<lambda>b. name monster = name b) (monsterBaseList db)"

definition registry_index :: "database \<Rightarrow> Monster \<Rightarrow> nat option" where
  "registry_index db monster =
     last_index (\<lambda>b. baseName b = baseName monster) (baseHeroes db)"

text \<open>
  The collection of hero levels as the specification words it, on a list of
  entries: an empty entry increments the blank counter and any other entry resets
  it; an entry that is a hero with a level adds that hero, and an entry that is
  not adds none; the collection ends with the entry \<open>done\<close> or with the second
  blank entry in a row.  The result is the heroes collected, the tables, and the
  entries not used; \<open>None\<close> when the entries run out before the end.  A hero is
  referred to by the index that \<open>addLeveledHero\<close> gives it, held in an \<open>int8_t\<close>.
\<close>

definition hero_of_answer :: "config \<Rightarrow> database \<Rightarrow> string \<Rightarrow> (int \<times> database) option" where
  "hero_of_answer cfg db answer =
     (if answer = [] then None
      else (case parseHeroString cfg db answer of
              Inl e \<Rightarrow> None
            | Inr heroData \<Rightarrow>
                (case addLeveledHero (fst heroData) (snd heroData) db of
                   (m, db') \<Rightarrow> Some (int8_t m, db'))))"

fun collect_heroes_spec ::
  "config \<Rightarrow> string list \<Rightarrow> nat \<Rightarrow> int list \<Rightarrow> database \<Rightarrow> (int list \<times> database \<times> string list) option"
where
  "collect_heroes_spec cfg [] blanks heroes db = None"
| "collect_heroes_spec cfg (answer # answers) blanks heroes db =
     (let blanks' = (if answer = [] then blanks + 1 else 0);
          heroes' = (case hero_of_answer cfg db answer of
                       None \<Rightarrow> heroes | Some (m, db') \<Rightarrow> heroes @ [m]);
          db' = (case hero_of_answer cfg db answer of None \<Rightarrow> db | Some (m, db') \<Rightarrow> db')
      in if answer = ''done'' \<or> 2 \<le> blanks' then Some (heroes', db', answers)
         else collect_heroes_spec cfg answers blanks' heroes' db')"

text \<open>
  The end of the collection, said of the entries alone: the last entry is \<open>done\<close>,
  or the last two entries are blank.
\<close>

definition ends_collection :: "string list \<Rightarrow> bool" where
  "ends_collection answers =
     (answers \<noteq> [] \<and>
      (last answers = ''done'' \<or>
       (2 \<le> length answers \<and> last answers = [] \<and> last (butlast answers) = [])))"

text \<open>
  The queries behind a list of answers of the collection: one query for each
  answer, of type \<open>rawFirst\<close> and with the help text for heroes, that asks for the
  hero after those collected from the answers before it.
\<close>

fun hero_queries ::
  "config \<Rightarrow> string list \<Rightarrow> int list \<Rightarrow> database \<Rightarrow> (string \<times> string \<times> QueryType) list"
where
  "hero_queries cfg [] heroes db = []"
| "hero_queries cfg (answer # answers) heroes db =
     (''Enter Hero '' @ to_string (int (length heroes) + 1) @ '': '', heroInputHelp cfg, rawFirst) #
     hero_queries cfg answers
       (case hero_of_answer cfg db answer of None \<Rightarrow> heroes | Some (m, db') \<Rightarrow> heroes @ [m])
       (case hero_of_answer cfg db answer of None \<Rightarrow> db | Some (m, db') \<Rightarrow> db')"

text \<open>The text of a stream that holds the given lines, each ended by a newline.\<close>

definition lines_text :: "string list \<Rightarrow> string" where
  "lines_text lines = concat (map (\<lambda>l. l @ endl) lines)"

section \<open>Values for the examples\<close>

text \<open>
  One choice of the constants of the header, and small tables with the monsters
  \<open>panda\<close> and \<open>wolf\<close>, the hero templates \<open>hero1\<close> and \<open>hero2\<close>, and the quest
  number 3.  The examples below run on them.
\<close>

definition example_config :: config where
  "example_config =
     \<lparr>COMMENT_DELIMITOR = ''//'', TOKEN_SEPARATOR = '' '', POSITIVE_ANSWER = ''y'',
      NEGATIVE_ANSWER = ''n'', QUEST_PREFIX = ''q'', QUEST_NUMBER_SEPARTOR = ''-'',
      ELEMENT_SEPARATOR = '','', HEROLEVEL_SEPARATOR = '':'', ARMY_MAX_SIZE = 6,
      TOURNAMENT_LINES = 2, REPLAY_EMPTY_SPOT = - 1,
      heroInputHelp = ''Enter a hero as name:level.'',
      lineupInputHelp = ''Enter monsters separated by commas.''\<rparr>"

definition example_monster :: "string \<Rightarrow> Monster" where
  "example_monster n = \<lparr>name = n, baseName = n, rarity = NO_HERO, level = 0\<rparr>"

definition example_hero :: "string \<Rightarrow> int \<Rightarrow> Monster" where
  "example_hero n lvl = \<lparr>name = n, baseName = n, rarity = HERO 0, level = lvl\<rparr>"

definition example_database :: database where
  "example_database =
     \<lparr>baseHeroes = [example_hero ''hero1'' 0, example_hero ''hero2'' 0],
      monsterBaseList = [example_monster ''panda'', example_monster ''wolf''],
      monsterReference = [example_monster ''panda'', example_monster ''wolf''],
      monsterMap = [(''panda'', 0), (''wolf'', 1)],
      quests = [(3, [''panda'', ''wolf''])]\<rparr>"

text \<open>The tables after \<open>hero2\<close> was registered at level 5, and an army on them.\<close>

definition example_database_hero2 :: database where
  "example_database_hero2 =
     example_database\<lparr>monsterReference :=
       [example_monster ''panda'', example_monster ''wolf'', example_hero ''hero2'' 5]\<rparr>"

definition example_army :: Army where
  "example_army = \<lparr>monsters = [1, 2], monsterAmount = 2\<rparr>"

text \<open>The tables after \<open>hero1\<close> was registered at level 1.\<close>

definition example_database_hero1 :: database where
  "example_database_hero1 =
     example_database\<lparr>monsterReference :=
       [example_monster ''panda'', example_monster ''wolf'', example_hero ''hero1'' 1]\<rparr>"

text \<open>The same army with a value left over in a slot that is not in use.\<close>

definition example_army_spare :: Army where
  "example_army_spare = \<lparr>monsters = [1, 2, 77], monsterAmount = 2\<rparr>"

text \<open>
  Tables with 128 hero templates, named by their positions \<open>0\<close> to \<open>127\<close>, and
  an army of one unit: the last of them at level 9.
\<close>

definition example_database_128 :: database where
  "example_database_128 =
     example_database
       \<lparr>baseHeroes := map (\<lambda>n. example_hero (to_string (int n)) 0) [0..<128],
        monsterReference := [example_hero ''127'' 9]\<rparr>"

definition example_army_127 :: Army where
  "example_army_127 = \<lparr>monsters = [0], monsterAmount = 1\<rparr>"

text \<open>A good stream with the given text, as \<open>cin\<close> or as a macro file just opened.\<close>

definition stream_of :: "string \<Rightarrow> istream" where
  "stream_of text = \<lparr>content = text, eofbit = False, failbit = False\<rparr>"




text \<open>
  The tables after \<open>hero1\<close> was registered at level 1 and \<open>hero2\<close> at level 5, and
  a session on a macro file of hero levels, opened without showing its input.
\<close>

definition example_database_heroes :: database where
  "example_database_heroes =
     example_database\<lparr>monsterReference :=
       [example_monster ''panda'', example_monster ''wolf'', example_hero ''hero1'' 1,
        example_hero ''hero2'' 5]\<rparr>"

definition example_hero_script :: session where
  "example_hero_script =
     initMacroFile
       (Some (lines_text [''Hero1:1 // the first'', ''help'', ''nobody:3'', '' hero2:5'',
                          ''hero2:5 x'', ''done'', ''hero1:7'']))
       False (IOManager (stream_of ''wolf''))"

section \<open>Properties of find and split\<close>

lemma find_str_Some:
  "find_str tgt str pos = Some n \<Longrightarrow>
     pos \<le> n \<and> n + length str \<le> length tgt \<and> take (length str) (drop n tgt) = str \<and>
     (\<forall>m. pos \<le> m \<and> m < n \<longrightarrow> take (length str) (drop m tgt) \<noteq> str)"
proof (induction tgt str pos rule: find_str.induct)
  case (1 tgt str pos)
  show ?case
  proof (cases "length tgt < pos + length str")
    case True
    with "1.prems" show ?thesis by (simp add: find_str.simps)
  next
    case inside: False
    show ?thesis
    proof (cases "take (length str) (drop pos tgt) = str")
      case True
      with inside "1.prems" show ?thesis by (auto simp: find_str.simps)
    next
      case False
      with inside "1.prems" have "find_str tgt str (pos + 1) = Some n"
        by (simp add: find_str.simps)
      from "1.IH" [OF inside False this]
      have ih: "pos + 1 \<le> n" "n + length str \<le> length tgt"
        "take (length str) (drop n tgt) = str"
        "\<forall>m. pos + 1 \<le> m \<and> m < n \<longrightarrow> take (length str) (drop m tgt) \<noteq> str"
        by simp_all
      have "take (length str) (drop m tgt) \<noteq> str" if "pos \<le> m" "m < n" for m
      proof (cases "m = pos")
        case True
        with False show ?thesis by simp
      next
        case False
        with that ih(4) show ?thesis by simp
      qed
      with ih show ?thesis by simp
    qed
  qed
qed

lemma find_str_None:
  "find_str tgt str pos = None \<Longrightarrow> pos \<le> m \<Longrightarrow> m + length str \<le> length tgt \<Longrightarrow>
     take (length str) (drop m tgt) \<noteq> str"
proof (induction tgt str pos rule: find_str.induct)
  case (1 tgt str pos)
  from "1.prems" have inside: "\<not> length tgt < pos + length str" by simp
  with "1.prems"(1) have here: "take (length str) (drop pos tgt) \<noteq> str"
    by (simp add: find_str.simps split: if_splits)
  with inside "1.prems"(1) have next_None: "find_str tgt str (pos + 1) = None"
    by (simp add: find_str.simps)
  show ?case
  proof (cases "m = pos")
    case True
    with here show ?thesis by simp
  next
    case False
    with "1.prems" have "pos + 1 \<le> m" by simp
    from "1.IH" [OF inside here next_None this "1.prems"(3)] show ?thesis .
  qed
qed

lemma split_loop_total:
  "separator \<noteq> [] \<Longrightarrow> start \<le> length tgt \<Longrightarrow>
     \<exists>more. split_loop tgt separator start output = Some (output @ more)"
proof (induction "length tgt + 1 - start" arbitrary: start "output" rule: less_induct)
  case less
  show ?case
  proof (cases "find_str tgt separator start")
    case None
    with less.prems show ?thesis
      by (subst split_loop.simps) (simp add: substr_def)
  next
    case (Some occurrence)
    from find_str_Some [OF Some]
    have occ: "start \<le> occurrence" "occurrence + length separator \<le> length tgt"
      by simp_all
    let ?output = "if start = 0 \<or> 0 < length (take (occurrence - start) (drop start tgt))
                   then output @ [take (occurrence - start) (drop start tgt)] else output"
    from occ less.prems(1)
    have "length tgt + 1 - (occurrence + length separator) < length tgt + 1 - start"
      by (cases separator) simp_all
    from less.hyps [OF this less.prems(1) occ(2)]
    obtain more where
      "split_loop tgt separator (occurrence + length separator) ?output = Some (?output @ more)"
      by blast
    with Some less.prems(2) show ?thesis
      by (subst split_loop.simps) (auto simp: substr_def)
  qed
qed

lemma split_first:
  assumes "separator \<noteq> []"
  shows "\<exists>first rest.
           split tgt separator = Some (first # rest) \<and>
           (case find_str tgt separator 0 of
              None \<Rightarrow> first = tgt \<and>
                (\<forall>m. m + length separator \<le> length tgt \<longrightarrow>
                   take (length separator) (drop m tgt) \<noteq> separator)
            | Some n \<Rightarrow> first = take n tgt \<and>
                take (length separator) (drop n tgt) = separator \<and>
                (\<forall>m < n. take (length separator) (drop m tgt) \<noteq> separator))"
proof (cases "find_str tgt separator 0")
  case None
  then have "split tgt separator = Some [tgt]"
    unfolding split_def by (subst split_loop.simps) (simp add: substr_def)
  moreover from None
  have "\<forall>m. m + length separator \<le> length tgt \<longrightarrow>
          take (length separator) (drop m tgt) \<noteq> separator"
    using find_str_None by blast
  ultimately show ?thesis
    using None by simp
next
  case (Some n)
  from find_str_Some [OF Some]
  have occ: "n + length separator \<le> length tgt"
    "take (length separator) (drop n tgt) = separator"
    "\<forall>m < n. take (length separator) (drop m tgt) \<noteq> separator"
    by simp_all
  from split_loop_total [OF assms occ(1)]
  obtain more where
    "split_loop tgt separator (n + length separator) ([] @ [take n tgt])
       = Some (([] @ [take n tgt]) @ more)"
    by blast
  with Some have "split tgt separator = Some (take n tgt # more)"
    unfolding split_def by (subst split_loop.simps) (simp add: substr_def)
  with Some occ show ?thesis
    by simp
qed

lemma process_input_total:
  assumes "COMMENT_DELIMITOR cfg \<noteq> []" "TOKEN_SEPARATOR cfg \<noteq> []"
  shows "\<exists>inputString firstToken. process_input cfg line = Some (inputString, firstToken)"
proof -
  from split_first [OF assms(1), of "toLower line"] obtain inputString rest where
    "split (toLower line) (COMMENT_DELIMITOR cfg) = Some (inputString # rest)"
    by blast
  moreover from split_first [OF assms(2), of inputString] obtain firstToken rest' where
    "split inputString (TOKEN_SEPARATOR cfg) = Some (firstToken # rest')"
    by blast
  ultimately show ?thesis
    by (simp add: process_input_def at0_def)
qed

text \<open>
  C10.  For every target (the empty one too) and every non-empty separator, \<open>split\<close>
  returns a vector, the vector is not empty, so that \<open>[0]\<close> is in bounds, and its
  first element is the part of the target before the first occurrence of the
  separator: the whole target when the separator does not occur in it.  With a
  comment delimiter and a token separator that are not empty, both uses of \<open>[0]\<close>
  in the normalization of a line by \<open>getResistantInput\<close> are in bounds: the
  normalization yields the line and its first token.
\<close>

theorem split_first_element:
  assumes "separator \<noteq> []"
  shows "(\<exists>first rest.
            split tgt separator = Some (first # rest) \<and>
            at0 (first # rest) = Some first \<and>
            (case find_str tgt separator 0 of
               None \<Rightarrow> first = tgt \<and>
                 (\<forall>m. m + length separator \<le> length tgt \<longrightarrow>
                    take (length separator) (drop m tgt) \<noteq> separator)
             | Some n \<Rightarrow> first = take n tgt \<and>
                 take (length separator) (drop n tgt) = separator \<and>
                 (\<forall>m < n. take (length separator) (drop m tgt) \<noteq> separator))) \<and>
         (COMMENT_DELIMITOR cfg \<noteq> [] \<and> TOKEN_SEPARATOR cfg \<noteq> [] \<longrightarrow>
            (\<exists>inputString firstToken. process_input cfg line = Some (inputString, firstToken)))"
proof
  from split_first [OF assms, of tgt]
  show "\<exists>first rest.
            split tgt separator = Some (first # rest) \<and>
            at0 (first # rest) = Some first \<and>
            (case find_str tgt separator 0 of
               None \<Rightarrow> first = tgt \<and>
                 (\<forall>m. m + length separator \<le> length tgt \<longrightarrow>
                    take (length separator) (drop m tgt) \<noteq> separator)
             | Some n \<Rightarrow> first = take n tgt \<and>
                 take (length separator) (drop n tgt) = separator \<and>
                 (\<forall>m < n. take (length separator) (drop m tgt) \<noteq> separator))"
    by (auto simp: at0_def)
next
  show "COMMENT_DELIMITOR cfg \<noteq> [] \<and> TOKEN_SEPARATOR cfg \<noteq> [] \<longrightarrow>
          (\<exists>inputString firstToken. process_input cfg line = Some (inputString, firstToken))"
    using process_input_total by blast
qed

theorem split_first_element_witness:
  "''//'' \<noteq> [] \<and> split ''3 // tier'' ''//'' = Some [''3 '', '' tier''] \<and>
   at0 [''3 '', '' tier''] = Some ''3 '' \<and> find_str ''3 // tier'' ''//'' 0 = Some 2 \<and>
   split '''' ''//'' = Some [''''] \<and>
   COMMENT_DELIMITOR example_config \<noteq> [] \<and> TOKEN_SEPARATOR example_config \<noteq> [] \<and>
   process_input example_config ''Q3-2 Wolf // hard'' = Some (''q3-2 wolf '', ''q3-2'')"
proof -
  have ne: "''//'' \<noteq> []" by simp
  have f: "find_str ''3 // tier'' ''//'' 0 = Some 2" by code_simp
  have s: "split ''3 // tier'' ''//'' = Some [''3 '', '' tier'']" by code_simp
  have e: "split '''' ''//'' = Some ['''']" by code_simp
  have c: "COMMENT_DELIMITOR example_config \<noteq> []" "TOKEN_SEPARATOR example_config \<noteq> []"
    by code_simp+
  have p: "process_input example_config ''Q3-2 Wolf // hard'' = Some (''q3-2 wolf '', ''q3-2'')"
    by code_simp
  from split_first_element [OF ne, of "''3 // tier''" example_config "''Q3-2 Wolf // hard''"]
    f s e c p
  show ?thesis
    by (simp add: at0_def)
qed

section \<open>The replay encoder: hero levels\<close>

lemma units_length: "length (units db setup) = nat (monsterAmount setup)"
  by (simp add: units_def)

lemma units_nth:
  "j < nat (monsterAmount setup) \<Longrightarrow>
     units db setup ! j = monsterReference db ! nat (monsters setup ! j)"
  by (simp add: units_def)

lemma well_formed_slot:
  assumes "well_formed db setup" "j < nat (monsterAmount setup)"
  shows "vec_at (monsters setup) (int j) = Some (monsters setup ! j)"
    and "vec_at (monsterReference db) (monsters setup ! j) = Some (units db setup ! j)"
  using assms by (simp_all add: well_formed_def vec_at_def units_nth)

lemma hero_level_loop_find:
  "well_formed db setup \<Longrightarrow>
     hero_level_loop db setup base j =
       Some (case List.find (\<lambda>m. rarity m \<noteq> NO_HERO \<and> baseName m = baseName base)
                    (drop j (units db setup)) of
               None \<Rightarrow> 0 | Some m \<Rightarrow> level m)"
proof (induction db "setup" base j rule: hero_level_loop.induct)
  case (1 db army base j)
  show ?case
  proof (cases "int j < monsterAmount army")
    case False
    then have "drop j (units db army) = []"
      by (simp add: units_length)
    with False show ?thesis
      by (subst hero_level_loop.simps) simp
  next
    case True
    then have j: "j < nat (monsterAmount army)" by simp
    note slot = well_formed_slot [OF "1.prems" j]
    from j have split_units:
      "drop j (units db army) = units db army ! j # drop (j + 1) (units db army)"
      by (simp add: Cons_nth_drop_Suc units_length)
    show ?thesis
    proof (cases "rarity (units db army ! j) \<noteq> NO_HERO \<and>
                  baseName (units db army ! j) = baseName base")
      case match: True
      with True slot split_units show ?thesis
        by (subst hero_level_loop.simps) simp
    next
      case False
      from "1.IH" [OF True slot(1) slot(2) False "1.prems"] True slot split_units False
      show ?thesis
        by (subst hero_level_loop.simps) auto
    qed
  qed
qed

lemma join_Cons:
  "xs \<noteq> [] \<Longrightarrow> join sep (x # xs) = x @ sep @ join sep xs"
  by (cases xs) simp_all

lemma getReplayHeroes_loop_join:
  "\<forall>b \<in> set bs. hero_level_loop db setup b 0 = Some (f b) \<Longrightarrow>
     getReplayHeroes_loop db setup bs heroes =
       Some (heroes @ join '','' (map (\<lambda>b. to_string (f b)) bs))"
proof (induction bs arbitrary: heroes)
  case Nil
  show ?case by simp
next
  case (Cons b bs)
  from Cons.prems have lvl: "hero_level_loop db setup b 0 = Some (f b)"
    and rest: "\<forall>b \<in> set bs. hero_level_loop db setup b 0 = Some (f b)"
    by simp_all
  from Cons.IH [OF rest] lvl show ?case
    by (cases "bs = []") (simp_all add: join_Cons)
qed

text \<open>
  C7.  For every army that is well formed for the tables, \<open>getReplayHeroes\<close>
  returns the printed array with one entry for each template of \<open>baseHeroes\<close>, in
  the order of the registry: the level of the first unit of the army, in insertion
  order, that is a hero with the base name of the template, and \<open>0\<close> when the army
  has no such unit.
\<close>

theorem getReplayHeroes_levels:
  assumes "well_formed db setup"
  shows "getReplayHeroes db setup =
           Some (''['' @ join '',''
                   (map (\<lambda>b. to_string
                           (case List.find (\<lambda>m. rarity m \<noteq> NO_HERO \<and> baseName m = baseName b)
                                   (units db setup) of
                              None \<Rightarrow> 0 | Some m \<Rightarrow> level m))
                      (baseHeroes db)) @ '']'')"
proof -
  have "\<forall>b \<in> set (baseHeroes db). hero_level_loop db setup b 0 =
          Some (case List.find (\<lambda>m. rarity m \<noteq> NO_HERO \<and> baseName m = baseName b)
                       (units db setup) of None \<Rightarrow> 0 | Some m \<Rightarrow> level m)"
    using hero_level_loop_find [OF assms, of _ 0] by simp
  from getReplayHeroes_loop_join [OF this] show ?thesis
    by (simp add: getReplayHeroes_def)
qed

theorem getReplayHeroes_levels_witness:
  "well_formed example_database_hero2 example_army \<and>
   units example_database_hero2 example_army =
     [example_monster ''wolf'', example_hero ''hero2'' 5] \<and>
   getReplayHeroes example_database_hero2 example_army = Some ''[0,5]''"
proof -
  have wf: "well_formed example_database_hero2 example_army"
    by code_simp
  have u: "units example_database_hero2 example_army =
             [example_monster ''wolf'', example_hero ''hero2'' 5]"
    by code_simp
  have "Some (''['' @ join '',''
                (map (\<lambda>b. to_string
                        (case List.find (\<lambda>m. rarity m \<noteq> NO_HERO \<and> baseName m = baseName b)
                                [example_monster ''wolf'', example_hero ''hero2'' 5] of
                           None \<Rightarrow> 0 | Some m \<Rightarrow> level m))
                   (baseHeroes example_database_hero2)) @ '']'') = Some ''[0,5]''"
    by code_simp
  with getReplayHeroes_levels [OF wf] wf u show ?thesis
    by simp
qed

section \<open>The replay encoder: slots\<close>

lemma hero_index_loop_last:
  "hero_index_loop bs monster i index =
     (case last_index (\<lambda>b. baseName b = baseName monster) bs of
        None \<Rightarrow> index
      | Some k \<Rightarrow> int8_t (- int (i + k) - 2))"
  by (induction bs arbitrary: i index) (auto split: option.splits simp: algebra_simps)

lemma monster_index_loop_last:
  "monster_index_loop bs monster i index =
     (case last_index (\<lambda>b. name monster = name b) bs of
        None \<Rightarrow> index
      | Some k \<Rightarrow> int8_t (int (i + k)))"
  by (induction bs arbitrary: i index) (auto split: option.splits simp: algebra_simps)

lemma int8_t_id: "- 128 \<le> x \<Longrightarrow> x \<le> 127 \<Longrightarrow> int8_t x = x"
  by (simp add: int8_t_def)

lemma getReplayMonsterNumber_monster:
  assumes "rarity monster = NO_HERO" "monster_position db monster = Some p" "p \<le> 127"
  shows "getReplayMonsterNumber cfg db monster = to_string (int p)"
  using assms
  by (simp add: getReplayMonsterNumber_def monster_position_def monster_index_loop_last int8_t_id)

lemma getReplayMonsterNumber_hero:
  assumes "rarity monster \<noteq> NO_HERO" "registry_index db monster = Some h" "h \<le> 126"
  shows "getReplayMonsterNumber cfg db monster = to_string (- (int h + 2))"
  using assms
  by (simp add: getReplayMonsterNumber_def registry_index_def hero_index_loop_last int8_t_id)

lemma replay_slot_unit:
  assumes "well_formed db setup" "int (i mod ARMY_MAX_SIZE cfg) < monsterAmount setup"
  shows "replay_slot cfg db setup i =
           Some (getReplayMonsterNumber cfg db
                   (units db setup ! (nat (monsterAmount setup) - i mod ARMY_MAX_SIZE cfg - 1)))"
proof -
  let ?j = "nat (monsterAmount setup) - i mod ARMY_MAX_SIZE cfg - 1"
  from assms(2) have j: "?j < nat (monsterAmount setup)"
    and idx: "monsterAmount setup - int (i mod ARMY_MAX_SIZE cfg) - 1 = int ?j"
    by auto
  from well_formed_slot [OF assms(1) j] assms(2) idx show ?thesis
    by (simp add: replay_slot_def)
qed

lemma replay_slot_empty:
  "\<not> int (i mod ARMY_MAX_SIZE cfg) < monsterAmount setup \<Longrightarrow>
     replay_slot cfg db setup i = Some (to_string (REPLAY_EMPTY_SPOT cfg))"
  by (simp add: replay_slot_def)

lemma upt_more: "(i < n - 1) = (map f [i + 1..<n] \<noteq> [])"
  by (auto simp: less_diff_conv)

lemma join_step:
  "c = (xs \<noteq> []) \<Longrightarrow>
     (s @ x @ (if c then sep else [])) @ join sep xs = s @ join sep (x # xs)"
  by (cases xs) simp_all

lemma getReplaySetup_loop_join:
  "\<forall>k < ARMY_MAX_SIZE cfg * TOURNAMENT_LINES cfg. replay_slot cfg db setup k = Some (f k) \<Longrightarrow>
     getReplaySetup_loop cfg db setup i stringSetup =
       Some (stringSetup @ join '','' (map f [i..<ARMY_MAX_SIZE cfg * TOURNAMENT_LINES cfg]))"
proof (induction cfg db "setup" i stringSetup rule: getReplaySetup_loop.induct)
  case (1 cfg db army i stringSetup)
  let ?n = "ARMY_MAX_SIZE cfg * TOURNAMENT_LINES cfg"
  show ?case
  proof (cases "i < ?n")
    case False
    then show ?thesis
      by (subst getReplaySetup_loop.simps) simp
  next
    case True
    with "1.prems" have slot: "replay_slot cfg db army i = Some (f i)" by simp
    from True have upt: "[i..<?n] = i # [i + 1..<?n]"
      by (simp add: upt_conv_Cons)
    have more: "(i < ?n - 1) = (map f [i + 1..<?n] \<noteq> [])"
      by (rule upt_more)
    have "getReplaySetup_loop cfg db army i stringSetup =
            getReplaySetup_loop cfg db army (i + 1)
              (stringSetup @ f i @ (if i < ?n - 1 then '','' else []))"
      using True slot by (subst getReplaySetup_loop.simps) simp
    also have "\<dots> = Some ((stringSetup @ f i @ (if i < ?n - 1 then '','' else []))
                          @ join '','' (map f [i + 1..<?n]))"
      by (rule "1.IH" [OF True slot "1.prems"])
    also have "\<dots> = Some (stringSetup @ join '','' (f i # map f [i + 1..<?n]))"
      by (simp only: join_step [OF more])
    finally show ?thesis
      by (simp only: upt list.map)
  qed
qed

text \<open>
  What \<open>getReplaySetup\<close> writes, within the range of \<open>int8_t\<close>.  For every army
  that is well formed for the tables, \<open>getReplaySetup\<close> returns the printed array
  of exactly \<open>ARMY_MAX_SIZE * TOURNAMENT_LINES\<close> slots.  Slot \<open>i\<close> with
  \<open>i mod ARMY_MAX_SIZE\<close> below the unit count holds the number that
  \<open>getReplayMonsterNumber\<close> gives the unit at position
  \<open>unitCount - (i mod ARMY_MAX_SIZE) - 1\<close>: the position \<open>p\<close> of an ordinary unit in
  the canonical monster list when \<open>p \<le> 127\<close>, and \<open>-(h + 2)\<close> for a hero of registry
  index \<open>h\<close>, found by base name whatever the level, when \<open>h \<le> 126\<close>.  Every other
  slot holds the empty-slot sentinel.
\<close>

lemma getReplaySetup_layout:
  assumes "well_formed db setup"
  shows "\<exists>slots.
           getReplaySetup cfg db setup = Some (''['' @ join '','' slots @ '']'') \<and>
           length slots = ARMY_MAX_SIZE cfg * TOURNAMENT_LINES cfg \<and>
           (\<forall>i < ARMY_MAX_SIZE cfg * TOURNAMENT_LINES cfg.
              if int (i mod ARMY_MAX_SIZE cfg) < monsterAmount setup
              then (let unit = units db setup
                                 ! (nat (monsterAmount setup) - i mod ARMY_MAX_SIZE cfg - 1)
                    in slots ! i = getReplayMonsterNumber cfg db unit \<and>
                       (\<forall>p. rarity unit = NO_HERO \<and> monster_position db unit = Some p \<and>
                            p \<le> 127 \<longrightarrow>
                            slots ! i = to_string (int p)) \<and>
                       (\<forall>h. rarity unit \<noteq> NO_HERO \<and> registry_index db unit = Some h \<and>
                            h \<le> 126 \<longrightarrow>
                            slots ! i = to_string (- (int h + 2))))
              else slots ! i = to_string (REPLAY_EMPTY_SPOT cfg))"
proof -
  let ?n = "ARMY_MAX_SIZE cfg * TOURNAMENT_LINES cfg"
  let ?unit = "\<lambda>i. units db setup ! (nat (monsterAmount setup) - i mod ARMY_MAX_SIZE cfg - 1)"
  let ?f = "\<lambda>i. if int (i mod ARMY_MAX_SIZE cfg) < monsterAmount setup
                then getReplayMonsterNumber cfg db (?unit i)
                else to_string (REPLAY_EMPTY_SPOT cfg)"
  have "\<forall>k < ?n. replay_slot cfg db setup k = Some (?f k)"
    using replay_slot_unit [OF assms] replay_slot_empty by simp
  from getReplaySetup_loop_join [OF this, of 0 "''[''"]
  have "getReplaySetup cfg db setup = Some (''['' @ join '','' (map ?f [0..<?n]) @ '']'')"
    by (simp add: getReplaySetup_def)
  moreover have "length (map ?f [0..<?n]) = ?n" by simp
  moreover have "if int (i mod ARMY_MAX_SIZE cfg) < monsterAmount setup
       then (let unit = ?unit i
             in map ?f [0..<?n] ! i = getReplayMonsterNumber cfg db unit \<and>
                (\<forall>p. rarity unit = NO_HERO \<and> monster_position db unit = Some p \<and>
                     p \<le> 127 \<longrightarrow>
                     map ?f [0..<?n] ! i = to_string (int p)) \<and>
                (\<forall>h. rarity unit \<noteq> NO_HERO \<and> registry_index db unit = Some h \<and>
                     h \<le> 126 \<longrightarrow>
                     map ?f [0..<?n] ! i = to_string (- (int h + 2))))
       else map ?f [0..<?n] ! i = to_string (REPLAY_EMPTY_SPOT cfg)" if "i < ?n" for i
  proof -
    from that have "map ?f [0..<?n] ! i = ?f i" by simp
    then show ?thesis
      using getReplayMonsterNumber_monster [of "?unit i" db _ cfg]
        getReplayMonsterNumber_hero [of "?unit i" db _ cfg]
      by (simp add: Let_def)
  qed
  ultimately show ?thesis by blast
qed

lemma getReplaySetup_layout_example:
  "well_formed example_database_hero2 example_army \<and>
   getReplaySetup example_config example_database_hero2 example_army =
     Some ''[-3,1,-1,-1,-1,-1,-3,1,-1,-1,-1,-1]'' \<and>
   registry_index example_database_hero2 (example_hero ''hero2'' 5) = Some 1 \<and>
   monster_position example_database_hero2 (example_monster ''wolf'') = Some 1"
proof -
  have wf: "well_formed example_database_hero2 example_army"
    by code_simp
  have run: "getReplaySetup example_config example_database_hero2 example_army =
               Some ''[-3,1,-1,-1,-1,-1,-3,1,-1,-1,-1,-1]''"
    by code_simp
  have idx: "registry_index example_database_hero2 (example_hero ''hero2'' 5) = Some 1"
    "monster_position example_database_hero2 (example_monster ''wolf'') = Some 1"
    by code_simp+
  from getReplaySetup_layout [OF wf, of example_config] wf run idx show ?thesis
    by simp
qed

text \<open>
  C3.  The claim holds up to the range of \<open>int8_t\<close>, and fails where
  \<open>getReplayMonsterNumber\<close> leaves it.  With 128 hero templates, the hero of
  registry index 127 is to be written \<open>-(127 + 2) = -129\<close>; the cast
  \<open>(int8_t) (-i - 2)\<close> turns that into \<open>127\<close>, and the slot holds \<open>127\<close>, which
  is the number of a monster, not of a hero.
\<close>

theorem getReplaySetup_hero_overflow:
  "units example_database_128 example_army_127 = [example_hero ''127'' 9] \<and>
   rarity (example_hero ''127'' 9) \<noteq> NO_HERO \<and>
   registry_index example_database_128 (example_hero ''127'' 9) = Some 127 \<and>
   getReplayMonsterNumber example_config example_database_128 (example_hero ''127'' 9) = ''127'' \<and>
   getReplaySetup example_config example_database_128 example_army_127 =
     Some ''[127,-1,-1,-1,-1,-1,127,-1,-1,-1,-1,-1]'' \<and>
   to_string (- (int 127 + 2)) = ''-129''"
  by code_simp

section \<open>The replay encoder: the token\<close>

lemma take_eq_vec_at:
  assumes "take n xs = take n ys" "i < int n"
  shows "vec_at xs i = vec_at ys i"
proof (cases "0 \<le> i")
  case False
  then show ?thesis by (simp add: vec_at_def)
next
  case True
  with assms(2) have i: "nat i < n" by simp
  from assms(1) have len: "min n (length xs) = min n (length ys)"
    by (metis length_take min.commute)
  with i have "(nat i < length xs) = (nat i < length ys)"
    by (metis min_less_iff_conj)
  moreover have "xs ! nat i = ys ! nat i" if "nat i < length xs"
    by (metis assms(1) i nth_take)
  ultimately show ?thesis
    using True by (auto simp: vec_at_def)
qed

lemma same_units_hero_level_loop:
  "same_units a b \<Longrightarrow> hero_level_loop db a base j = hero_level_loop db b base j"
proof (induction db a base j rule: hero_level_loop.induct)
  case (1 db army base j)
  from "1.prems" have amount: "monsterAmount b = monsterAmount army"
    and tk: "take (nat (monsterAmount army)) (monsters army) =
             take (nat (monsterAmount army)) (monsters b)"
    unfolding same_units_def by auto
  show ?case
  proof (cases "int j < monsterAmount army")
    case False
    with amount show ?thesis
      by (simp add: hero_level_loop.simps [of db army] hero_level_loop.simps [of db b])
  next
    case True
    then have slot: "vec_at (monsters army) (int j) = vec_at (monsters b) (int j)"
      by (intro take_eq_vec_at [OF tk]) simp
    show ?thesis
    proof (cases "vec_at (monsters army) (int j)")
      case None
      with slot have "vec_at (monsters b) (int j) = None" by simp
      with None True amount show ?thesis
        by (simp add: hero_level_loop.simps [of db army] hero_level_loop.simps [of db b])
    next
      case (Some m)
      with slot have slot_b: "vec_at (monsters b) (int j) = Some m" by simp
      show ?thesis
      proof (cases "vec_at (monsterReference db) m")
        case None
        with True amount Some slot_b show ?thesis
          by (simp add: hero_level_loop.simps [of db army base j]
              hero_level_loop.simps [of db b base j])
      next
        case found: (Some monster)
        show ?thesis
        proof (cases "rarity monster \<noteq> NO_HERO \<and> baseName monster = baseName base")
          case True
          with \<open>int j < monsterAmount army\<close> amount Some slot_b found show ?thesis
            by (simp add: hero_level_loop.simps [of db army base j]
                hero_level_loop.simps [of db b base j])
        next
          case False
          from "1.IH" [OF \<open>int j < monsterAmount army\<close> Some found False "1.prems"]
            \<open>int j < monsterAmount army\<close> amount Some slot_b found False
          show ?thesis
            by (auto simp: hero_level_loop.simps [of db army base j]
                hero_level_loop.simps [of db b base j])
        qed
      qed
    qed
  qed
qed

lemma same_units_getReplayHeroes:
  assumes "same_units a b"
  shows "getReplayHeroes db a = getReplayHeroes db b"
proof -
  have "getReplayHeroes_loop db a bs heroes = getReplayHeroes_loop db b bs heroes" for bs heroes
    by (induction bs arbitrary: heroes)
      (simp_all add: same_units_hero_level_loop [OF assms] split: option.splits)
  then show ?thesis
    by (simp add: getReplayHeroes_def)
qed

lemma same_units_replay_slot:
  assumes "same_units a b"
  shows "replay_slot cfg db a i = replay_slot cfg db b i"
proof -
  from assms have amount: "monsterAmount b = monsterAmount a"
    and tk: "take (nat (monsterAmount a)) (monsters a) = take (nat (monsterAmount a)) (monsters b)"
    unfolding same_units_def by auto
  show ?thesis
  proof (cases "int (i mod ARMY_MAX_SIZE cfg) < monsterAmount a")
    case False
    with amount show ?thesis
      by (simp add: replay_slot_def)
  next
    case True
    then have "vec_at (monsters a) (monsterAmount a - int (i mod ARMY_MAX_SIZE cfg) - 1) =
               vec_at (monsters b) (monsterAmount a - int (i mod ARMY_MAX_SIZE cfg) - 1)"
      by (intro take_eq_vec_at [OF tk]) simp
    with amount show ?thesis
      by (simp add: replay_slot_def)
  qed
qed

lemma same_units_getReplaySetup_loop:
  "same_units a b \<Longrightarrow>
     getReplaySetup_loop cfg db a i stringSetup = getReplaySetup_loop cfg db b i stringSetup"
proof (induction cfg db a i stringSetup rule: getReplaySetup_loop.induct)
  case (1 cfg db army i stringSetup)
  note slot = same_units_replay_slot [OF "1.prems", of cfg db i]
  show ?case
  proof (cases "i < ARMY_MAX_SIZE cfg * TOURNAMENT_LINES cfg")
    case False
    then show ?thesis
      by (simp add: getReplaySetup_loop.simps [of cfg db army]
          getReplaySetup_loop.simps [of cfg db b])
  next
    case True
    show ?thesis
    proof (cases "replay_slot cfg db army i")
      case None
      with True slot show ?thesis
        by (simp add: getReplaySetup_loop.simps [of cfg db army i]
            getReplaySetup_loop.simps [of cfg db b i])
    next
      case (Some slot')
      from "1.IH" [OF True Some "1.prems"] True Some slot
      show ?thesis
        by (simp add: getReplaySetup_loop.simps [of cfg db army i]
            getReplaySetup_loop.simps [of cfg db b i])
    qed
  qed
qed

lemma same_units_getReplaySetup:
  "same_units a b \<Longrightarrow> getReplaySetup cfg db a = getReplaySetup cfg db b"
  by (simp add: getReplaySetup_def same_units_getReplaySetup_loop)

text \<open>
  C9.  The token is a function of the two armies, the tables and the clock
  reading alone: two invocations on the same pair of armies, whatever their slots
  out of use hold, with the same tables and the same clock reading produce the
  same token.  The clock reading enters the token only as the text of the \<open>date\<close>
  field; what stands before and after it is the same for every reading.
\<close>

theorem makeBattleReplay_deterministic:
  assumes "same_units friendly friendly'" "same_units hostile hostile'"
  shows "makeBattleReplay base64_encode cfg db now friendly hostile =
           makeBattleReplay base64_encode cfg db now friendly' hostile' \<and>
         (\<exists>before after. \<forall>t.
            makeBattleReplay base64_encode cfg db t friendly hostile =
              (if makeBattleReplay base64_encode cfg db now friendly hostile = None then None
               else Some (base64_encode (before @ to_string t @ after))))"
proof
  show "makeBattleReplay base64_encode cfg db now friendly hostile =
          makeBattleReplay base64_encode cfg db now friendly' hostile'"
    by (simp only: makeBattleReplay_def replay_json_def
        same_units_getReplaySetup [OF assms(1)] same_units_getReplaySetup [OF assms(2)]
        same_units_getReplayHeroes [OF assms(1)] same_units_getReplayHeroes [OF assms(2)])
next
  show "\<exists>before after. \<forall>t.
            makeBattleReplay base64_encode cfg db t friendly hostile =
              (if makeBattleReplay base64_encode cfg db now friendly hostile = None then None
               else Some (base64_encode (before @ to_string t @ after)))"
  proof (cases "replay_json cfg db now friendly hostile")
    case None
    then have "replay_json cfg db t friendly hostile = None" for t
      by (auto simp: replay_json_def split: option.splits)
    with None show ?thesis
      by (simp add: makeBattleReplay_def)
  next
    case (Some json)
    then obtain setup' shero player phero where parts:
      "getReplaySetup cfg db friendly = Some setup'" "getReplayHeroes db friendly = Some shero"
      "getReplaySetup cfg db hostile = Some player" "getReplayHeroes db hostile = Some phero"
      by (auto simp: replay_json_def split: option.splits)
    let ?before = "''{'' @ ''\"winner\"'' @ '':'' @ ''\"Unknown\"'' @ '',''
              @ ''\"left\"'' @ '':'' @ ''\"Solution\"'' @ '',''
              @ ''\"right\"'' @ '':'' @ ''\"Instance\"'' @ '',''
              @ ''\"date\"'' @ '':''"
    let ?after = "'','' @ ''\"title\"'' @ '':'' @ ''\"Proposed Solution\"'' @ '',''
              @ ''\"setup\"'' @ '':'' @ setup' @ '',''
              @ ''\"shero\"'' @ '':'' @ shero @ '',''
              @ ''\"player\"'' @ '':'' @ player @ '',''
              @ ''\"phero\"'' @ '':'' @ phero
              @ ''}''"
    have "\<forall>t. makeBattleReplay base64_encode cfg db t friendly hostile =
              (if makeBattleReplay base64_encode cfg db now friendly hostile = None then None
               else Some (base64_encode (?before @ to_string t @ ?after)))"
      using parts by (simp add: makeBattleReplay_def replay_json_def)
    then show ?thesis by blast
  qed
qed


theorem makeBattleReplay_deterministic_witness:
  "same_units example_army example_army_spare \<and> same_units example_army example_army \<and>
   makeBattleReplay id example_config example_database_hero2 1234 example_army_spare example_army =
     Some (''{\"winner\":\"Unknown\",\"left\":\"Solution\",\"right\":\"Instance\",\"date\":1234,''
           @ ''\"title\":\"Proposed Solution\",\"setup\":[-3,1,-1,-1,-1,-1,-3,1,-1,-1,-1,-1],''
           @ ''\"shero\":[0,5],\"player\":[-3,1,-1,-1,-1,-1,-3,1,-1,-1,-1,-1],\"phero\":[0,5]}'')"
proof -
  have same: "same_units example_army example_army_spare" "same_units example_army example_army"
    by code_simp+
  have "makeBattleReplay id example_config example_database_hero2 1234 example_army example_army =
     Some (''{\"winner\":\"Unknown\",\"left\":\"Solution\",\"right\":\"Instance\",\"date\":1234,''
           @ ''\"title\":\"Proposed Solution\",\"setup\":[-3,1,-1,-1,-1,-1,-3,1,-1,-1,-1,-1],''
           @ ''\"shero\":[0,5],\"player\":[-3,1,-1,-1,-1,-1,-3,1,-1,-1,-1,-1],\"phero\":[0,5]}'')"
    by code_simp
  with makeBattleReplay_deterministic [OF same, of id example_config example_database_hero2 1234]
    same
  show ?thesis by simp
qed

section \<open>The query automaton\<close>

lemma getResistantInput_loop_induct [consumes 1, case_names answer asked_help retry]:
  assumes major: "getResistantInput_loop cfg query help queryType inputString s = Some r"
    and answer: "\<And>inputString s line s1 inputString' firstToken answer.
        \<lbrakk>read_input query inputString s = (line, s1);
         process_input cfg line = Some (inputString', firstToken);
         firstToken \<noteq> ''help'';
         validate cfg queryType inputString' firstToken = Some answer\<rbrakk>
        \<Longrightarrow> P inputString s (answer, echo_input inputString' s1)"
    and asked_help: "\<And>inputString s line s1 inputString' r.
        \<lbrakk>read_input query inputString s = (line, s1);
         process_input cfg line = Some (inputString', ''help'');
         getResistantInput_loop cfg query help queryType inputString'
           ((echo_input inputString' s1)\<lparr>cout := cout (echo_input inputString' s1) @ help\<rparr>)
           = Some r;
         P inputString'
           ((echo_input inputString' s1)\<lparr>cout := cout (echo_input inputString' s1) @ help\<rparr>) r\<rbrakk>
        \<Longrightarrow> P inputString s r"
    and retry: "\<And>inputString s line s1 inputString' firstToken r.
        \<lbrakk>read_input query inputString s = (line, s1);
         process_input cfg line = Some (inputString', firstToken);
         firstToken \<noteq> ''help'';
         validate cfg queryType inputString' firstToken = None;
         getResistantInput_loop cfg query help queryType inputString' (echo_input inputString' s1)
           = Some r;
         P inputString' (echo_input inputString' s1) r\<rbrakk>
        \<Longrightarrow> P inputString s r"
  shows "P inputString s r"
proof -
  let ?Q = "\<lambda>cfg' query' help' queryType' inputString s r.
              cfg' = cfg \<and> query' = query \<and> help' = help \<and> queryType' = queryType \<longrightarrow>
              getResistantInput_loop cfg query help queryType inputString s = Some r \<and>
              P inputString s r"
  have "?Q cfg query help queryType inputString s r"
  proof (rule getResistantInput_loop.raw_induct [where P = ?Q, OF _ major], intro impI, elim conjE)
    fix loop cfg' query' help' queryType' inputString s r
    assume IH: "\<And>cfg' query' help' queryType' inputString s r.
                  loop cfg' query' help' queryType' inputString s = Some r \<Longrightarrow>
                  ?Q cfg' query' help' queryType' inputString s r"
      and body: "(case read_input query' inputString s of
        (line, s1) \<Rightarrow>
          (case process_input cfg' line of
             None \<Rightarrow> None
           | Some (inputString', firstToken) \<Rightarrow>
               if firstToken = ''help''
               then loop cfg' query' help' queryType' inputString'
                      ((echo_input inputString' s1)\<lparr>cout := cout (echo_input inputString' s1) @ help'\<rparr>)
               else (case validate cfg' queryType' inputString' firstToken of
                       Some answer \<Rightarrow> Some (answer, echo_input inputString' s1)
                     | None \<Rightarrow>
                         loop cfg' query' help' queryType' inputString'
                           (echo_input inputString' s1)))) = Some r"
      and eq: "cfg' = cfg" "query' = query" "help' = help" "queryType' = queryType"
    obtain line s1 where rd: "read_input query inputString s = (line, s1)"
      by (cases "read_input query inputString s")
    with body eq obtain inputString' firstToken
      where pr: "process_input cfg line = Some (inputString', firstToken)"
      by (cases "process_input cfg line") auto
    show "getResistantInput_loop cfg query help queryType inputString s = Some r \<and>
          P inputString s r"
    proof (cases "firstToken = ''help''")
      case True
      with body eq rd pr
      have "loop cfg query help queryType inputString'
              ((echo_input inputString' s1)\<lparr>cout := cout (echo_input inputString' s1) @ help\<rparr>)
              = Some r"
        by simp
      from IH [OF this] have cont:
        "getResistantInput_loop cfg query help queryType inputString'
              ((echo_input inputString' s1)\<lparr>cout := cout (echo_input inputString' s1) @ help\<rparr>)
              = Some r"
        "P inputString'
           ((echo_input inputString' s1)\<lparr>cout := cout (echo_input inputString' s1) @ help\<rparr>) r"
        by simp_all
      from rd pr True cont(1)
      have "getResistantInput_loop cfg query help queryType inputString s = Some r"
        by (subst getResistantInput_loop.simps) simp
      moreover from asked_help [OF rd _ cont] pr True have "P inputString s r" by simp
      ultimately show ?thesis ..
    next
      case False
      show ?thesis
      proof (cases "validate cfg queryType inputString' firstToken")
        case (Some a)
        with body eq rd pr False have r: "r = (a, echo_input inputString' s1)"
          by simp
        from rd pr False Some r
        have "getResistantInput_loop cfg query help queryType inputString s = Some r"
          by (subst getResistantInput_loop.simps) simp
        moreover from answer [OF rd pr False Some] r have "P inputString s r" by simp
        ultimately show ?thesis ..
      next
        case None
        with body eq rd pr False
        have "loop cfg query help queryType inputString' (echo_input inputString' s1) = Some r"
          by simp
        from IH [OF this] have cont:
          "getResistantInput_loop cfg query help queryType inputString' (echo_input inputString' s1)
             = Some r"
          "P inputString' (echo_input inputString' s1) r"
          by simp_all
        from rd pr False None cont(1)
        have "getResistantInput_loop cfg query help queryType inputString s = Some r"
          by (subst getResistantInput_loop.simps) simp
        moreover from retry [OF rd pr False None cont] have "P inputString s r" .
        ultimately show ?thesis ..
      qed
    qed
  qed
  then show ?thesis by simp
qed


lemma getResistantInput_loop_last:
  assumes "getResistantInput_loop cfg query help queryType inputString s = Some r"
  shows "\<exists>inputString0 s0 line s1 inputString' firstToken.
           read_input query inputString0 s0 = (line, s1) \<and>
           process_input cfg line = Some (inputString', firstToken) \<and>
           firstToken \<noteq> ''help'' \<and>
           validate cfg queryType inputString' firstToken = Some (fst r) \<and>
           snd r = echo_input inputString' s1"
  using assms
proof (induction rule: getResistantInput_loop_induct)
  case (answer inputString s line s1 inputString' firstToken answer)
  then show ?case by fastforce
qed

lemma validate_integer:
  "validate cfg integer inputString firstToken = Some answer \<Longrightarrow>
     answer = firstToken \<and> (\<exists>v. stoi answer = Inr v)"
  by (cases "stoi firstToken") (auto simp: validate_def split: if_splits)

text \<open>
  C1, as amended.  An answer to a query of type \<open>integer\<close> is the first token of
  the normalized form of a line that the automaton has read, returned as text, and
  \<open>stoi\<close> does not throw on it: behind optional white space and an optional sign it
  starts with a decimal digit, and the number that its leading digits spell fits an
  \<open>int\<close>.  Characters behind these digits are allowed.
\<close>

theorem integer_answer_parses:
  assumes "getResistantInput cfg query help integer s = Some (answer, s')"
  shows "(\<exists>v. stoi answer = Inr v) \<and>
         (\<exists>inputString0 s0 line s1 inputString.
            read_input query inputString0 s0 = (line, s1) \<and>
            process_input cfg line = Some (inputString, answer) \<and>
            s' = echo_input inputString s1)"
proof -
  from assms getResistantInput_loop_last [of cfg query "help" integer "[]" s "(answer, s')"]
  obtain inputString0 s0 line s1 inputString' firstToken where
    "read_input query inputString0 s0 = (line, s1)"
    "process_input cfg line = Some (inputString', firstToken)"
    "validate cfg integer inputString' firstToken = Some answer"
    "s' = echo_input inputString' s1"
    by (auto simp: getResistantInput_def)
  with validate_integer show ?thesis by blast
qed

text \<open>
  C8.  A line whose first token is \<open>help\<close> is not an answer, whatever the type of
  the query: the help text is written and the loop goes on with the same query,
  help text and type.  Every answer that the automaton returns comes from a line
  that it has read and whose first token is not \<open>help\<close>.
\<close>

theorem help_restarts_query:
  "(read_input query inputString s = (line, s1) \<and>
    process_input cfg line = Some (inputString', ''help'') \<longrightarrow>
      getResistantInput_loop cfg query help queryType inputString s =
      getResistantInput_loop cfg query help queryType inputString'
        ((echo_input inputString' s1)\<lparr>cout := cout (echo_input inputString' s1) @ help\<rparr>)) \<and>
   (getResistantInput cfg query help queryType s = Some (answer, s') \<longrightarrow>
      (\<exists>inputString0 s0 line s1 inputString' firstToken.
         read_input query inputString0 s0 = (line, s1) \<and>
         process_input cfg line = Some (inputString', firstToken) \<and>
         firstToken \<noteq> ''help'' \<and>
         validate cfg queryType inputString' firstToken = Some answer \<and>
         s' = echo_input inputString' s1))"
proof (intro conjI impI)
  assume "read_input query inputString s = (line, s1) \<and>
          process_input cfg line = Some (inputString', ''help'')"
  then show "getResistantInput_loop cfg query help queryType inputString s =
      getResistantInput_loop cfg query help queryType inputString'
        ((echo_input inputString' s1)\<lparr>cout := cout (echo_input inputString' s1) @ help\<rparr>)"
    by (subst getResistantInput_loop.simps) simp
next
  assume "getResistantInput cfg query help queryType s = Some (answer, s')"
  with getResistantInput_loop_last [of cfg query "help" queryType "[]" s "(answer, s')"]
  show "\<exists>inputString0 s0 line s1 inputString' firstToken.
         read_input query inputString0 s0 = (line, s1) \<and>
         process_input cfg line = Some (inputString', firstToken) \<and>
         firstToken \<noteq> ''help'' \<and>
         validate cfg queryType inputString' firstToken = Some answer \<and>
         s' = echo_input inputString' s1"
    by (simp add: getResistantInput_def)
qed

theorem integer_answer_parses_witness:
  "getResistantInput example_config ''Number: '' ''Type a number.'' integer
     (IOManager (stream_of (''x'' @ endl @ ''12abc // twelve'' @ endl))) =
     Some (''12abc'', (IOManager (stream_of []))\<lparr>cout := ''Number: Number: ''\<rparr>) \<and>
   stoi ''12abc'' = Inr 12"
proof -
  have run: "getResistantInput example_config ''Number: '' ''Type a number.'' integer
     (IOManager (stream_of (''x'' @ endl @ ''12abc // twelve'' @ endl))) =
     Some (''12abc'', (IOManager (stream_of []))\<lparr>cout := ''Number: Number: ''\<rparr>)"
    by code_simp
  have "stoi ''12abc'' = Inr 12" by code_simp
  with integer_answer_parses [OF run] run show ?thesis by simp
qed

text \<open>
  The claim as it stands asks for the whole token to be numeric; the token
  \<open>12abc\<close>, of which \<open>stoi\<close> uses two characters, is returned.
\<close>

theorem integer_answer_counterexample:
  "map_option fst
     (getResistantInput example_config ''Number: '' ''Type a number.'' integer
        (IOManager (stream_of (''12abc'' @ endl)))) = Some ''12abc'' \<and>
   stoi_pos ''12abc'' = Inr (12, 2) \<and> 2 < length ''12abc''"
  by code_simp

theorem help_restarts_query_witness:
  "read_input ''Number: '' []
     (IOManager (stream_of (''Help me'' @ endl @ ''5'' @ endl))) =
     (''Help me'', (IOManager (stream_of (''5'' @ endl)))\<lparr>cout := ''Number: ''\<rparr>) \<and>
   process_input example_config ''Help me'' = Some (''help me'', ''help'') \<and>
   getResistantInput example_config ''Number: '' ''Type a number.'' integer
     (IOManager (stream_of (''Help me'' @ endl @ ''5'' @ endl))) =
     Some (''5'', (IOManager (stream_of []))\<lparr>cout := ''Number: Type a number.Number: ''\<rparr>) \<and>
   getResistantInput_loop example_config ''Number: '' ''Type a number.'' integer ''help me''
     ((IOManager (stream_of (''5'' @ endl)))\<lparr>cout := ''Number: Type a number.''\<rparr>) =
     Some (''5'', (IOManager (stream_of []))\<lparr>cout := ''Number: Type a number.Number: ''\<rparr>)"
proof -
  have rd: "read_input ''Number: '' []
     (IOManager (stream_of (''Help me'' @ endl @ ''5'' @ endl))) =
     (''Help me'', (IOManager (stream_of (''5'' @ endl)))\<lparr>cout := ''Number: ''\<rparr>)"
    by code_simp
  have pr: "process_input example_config ''Help me'' = Some (''help me'', ''help'')"
    by code_simp
  have run: "getResistantInput example_config ''Number: '' ''Type a number.'' integer
     (IOManager (stream_of (''Help me'' @ endl @ ''5'' @ endl))) =
     Some (''5'', (IOManager (stream_of []))\<lparr>cout := ''Number: Type a number.Number: ''\<rparr>)"
    by code_simp
  have shown: "(echo_input ''help me'' ((IOManager (stream_of (''5'' @ endl)))\<lparr>cout := ''Number: ''\<rparr>))
      \<lparr>cout := cout (echo_input ''help me''
                 ((IOManager (stream_of (''5'' @ endl)))\<lparr>cout := ''Number: ''\<rparr>)) @ ''Type a number.''\<rparr>
     = (IOManager (stream_of (''5'' @ endl)))\<lparr>cout := ''Number: Type a number.''\<rparr>"
    by code_simp
  from help_restarts_query [of "''Number: ''" "[]"
      "IOManager (stream_of (''Help me'' @ endl @ ''5'' @ endl))" "''Help me''"
      "(IOManager (stream_of (''5'' @ endl)))\<lparr>cout := ''Number: ''\<rparr>" example_config
      "''help me''" "''Type a number.''" integer]
    rd pr run shown
  show ?thesis
    by (simp add: getResistantInput_def)
qed

section \<open>The query automaton: script mode\<close>



lemma echo_input_script [simp]:
  "useMacroFile (echo_input inputString s) = useMacroFile s"
  "macroFile (echo_input inputString s) = macroFile s"
  "echo_input inputString (s\<lparr>macroFile := m\<rparr>) = (echo_input inputString s)\<lparr>macroFile := m\<rparr>"
  by (simp_all add: echo_input_def)








section \<open>The instance input command\<close>





text \<open>
  A quest number for which \<open>quests\<close> has no list: the read \<open>quests[questNumber]\<close>
  does not throw, so the token parses, to an instance with an empty target, and a
  line that holds it is returned.
\<close>

lemma takeInstanceInput_unlisted_quest:
  "makeInstanceFromString example_config ''q7-1'' example_database =
     Some (Inr \<lparr>target = empty_Army, maxCombatants = 6, targetSize = 0\<rparr>, example_database) \<and>
   takeInstanceInput example_config ''Lineup: ''
     (IOManager (stream_of (''wolf q7-1'' @ endl))) example_database =
     Some ([\<lparr>target = \<lparr>monsters = [1], monsterAmount = 1\<rparr>, maxCombatants = 6, targetSize = 1\<rparr>,
            \<lparr>target = empty_Army, maxCombatants = 6, targetSize = 0\<rparr>],
           (IOManager (stream_of []))\<lparr>cout := ''Lineup: ''\<rparr>, example_database)"
  by code_simp



section \<open>The hero level input command\<close>

lemma collect_hero_spec:
  "collect_hero cfg answer heroes (int blanks) db =
     (case hero_of_answer cfg db answer of None \<Rightarrow> heroes | Some (m, db') \<Rightarrow> heroes @ [m],
      int (if answer = [] then blanks + 1 else 0),
      case hero_of_answer cfg db answer of None \<Rightarrow> db | Some (m, db') \<Rightarrow> db')"
  by (auto simp: collect_hero_def hero_of_answer_def split: sum.splits prod.splits)

lemma takeHerolevelInput_loop_returns:
  "ask_all cfg (hero_queries cfg answers heroes db) s = Some (answers, s') \<Longrightarrow>
   collect_heroes_spec cfg answers blanks heroes db = Some (heroes', db', []) \<Longrightarrow>
     takeHerolevelInput_loop cfg heroes (int blanks) s db = Some (heroes', s', db')"
proof (induction answers arbitrary: heroes blanks db s)
  case Nil
  then show ?case by simp
next
  case (Cons a as)
  let ?query = "''Enter Hero '' @ to_string (int (length heroes) + 1) @ '': ''"
  let ?blanks = "if a = [] then blanks + 1 else 0"
  let ?heroes = "case hero_of_answer cfg db a of None \<Rightarrow> heroes | Some (m, db') \<Rightarrow> heroes @ [m]"
  let ?db = "case hero_of_answer cfg db a of None \<Rightarrow> db | Some (m, db') \<Rightarrow> db'"
  from Cons.prems(1) obtain s1 where
    ask: "getResistantInput cfg ?query (heroInputHelp cfg) rawFirst s = Some (a, s1)"
    and rest: "ask_all cfg (hero_queries cfg as ?heroes ?db) s1 = Some (as, s')"
    by (auto split: option.splits)
  show ?case
  proof (cases "a = ''done'' \<or> 2 \<le> ?blanks")
    case True
    with Cons.prems(2) have "heroes' = ?heroes" "db' = ?db" "as = []"
      by (simp_all add: Let_def)
    with rest have "s' = s1" by simp
    with ask True \<open>heroes' = ?heroes\<close> \<open>db' = ?db\<close> show ?thesis
      by (subst takeHerolevelInput_loop.simps) (auto simp: collect_hero_spec)
  next
    case False
    with Cons.prems(2)
    have spec: "collect_heroes_spec cfg as ?blanks ?heroes ?db = Some (heroes', db', [])"
      by (simp add: Let_def)
    have "takeHerolevelInput_loop cfg heroes (int blanks) s db =
            takeHerolevelInput_loop cfg ?heroes (int ?blanks) s1 ?db"
      using ask False
      by (subst takeHerolevelInput_loop.simps) (auto simp: collect_hero_spec)
    with Cons.IH [OF rest spec] show ?thesis by simp
  qed
qed

lemma takeHerolevelInput_loop_answers:
  assumes major: "takeHerolevelInput_loop cfg heroes cancelCounter s db = Some r"
  shows "\<forall>blanks. cancelCounter = int blanks \<longrightarrow>
           (\<exists>answers.
              ask_all cfg (hero_queries cfg answers heroes db) s = Some (answers, fst (snd r)) \<and>
              collect_heroes_spec cfg answers blanks heroes db = Some (fst r, snd (snd r), []))"
proof (rule takeHerolevelInput_loop.raw_induct
    [where P = "\<lambda>cfg heroes cancelCounter s db r. \<forall>blanks. cancelCounter = int blanks \<longrightarrow>
           (\<exists>answers.
              ask_all cfg (hero_queries cfg answers heroes db) s = Some (answers, fst (snd r)) \<and>
              collect_heroes_spec cfg answers blanks heroes db = Some (fst r, snd (snd r), []))",
     OF _ major])
  fix loop cfg heroes cancelCounter s db r
  assume IH: "\<And>cfg heroes cancelCounter s db r. loop cfg heroes cancelCounter s db = Some r \<Longrightarrow>
        \<forall>blanks. cancelCounter = int blanks \<longrightarrow>
           (\<exists>answers.
              ask_all cfg (hero_queries cfg answers heroes db) s = Some (answers, fst (snd r)) \<and>
              collect_heroes_spec cfg answers blanks heroes db = Some (fst r, snd (snd r), []))"
    and body: "(case getResistantInput cfg
            (''Enter Hero '' @ to_string (int (length heroes) + 1) @ '': '')
            (heroInputHelp cfg) rawFirst s of
      None \<Rightarrow> None
      | Some (input, s1) \<Rightarrow>
          case collect_hero cfg input heroes cancelCounter db of
          (heroes', cancelCounter', db') \<Rightarrow>
            if input \<noteq> ''done'' \<and> cancelCounter' < 2
            then loop cfg heroes' cancelCounter' s1 db'
            else Some (heroes', s1, db')) = Some r"
  let ?query = "''Enter Hero '' @ to_string (int (length heroes) + 1) @ '': ''"
  from body obtain a s1 where
    ask: "getResistantInput cfg ?query (heroInputHelp cfg) rawFirst s = Some (a, s1)"
    by (auto split: option.splits)
  show "\<forall>blanks. cancelCounter = int blanks \<longrightarrow>
           (\<exists>answers.
              ask_all cfg (hero_queries cfg answers heroes db) s = Some (answers, fst (snd r)) \<and>
              collect_heroes_spec cfg answers blanks heroes db = Some (fst r, snd (snd r), []))"
  proof (intro allI impI)
    fix blanks
    assume cc: "cancelCounter = int blanks"
    let ?blanks = "if a = [] then blanks + 1 else 0"
    let ?heroes = "case hero_of_answer cfg db a of None \<Rightarrow> heroes | Some (m, db') \<Rightarrow> heroes @ [m]"
    let ?db = "case hero_of_answer cfg db a of None \<Rightarrow> db | Some (m, db') \<Rightarrow> db'"
    show "\<exists>answers.
              ask_all cfg (hero_queries cfg answers heroes db) s = Some (answers, fst (snd r)) \<and>
              collect_heroes_spec cfg answers blanks heroes db = Some (fst r, snd (snd r), [])"
    proof (cases "a = ''done'' \<or> 2 \<le> ?blanks")
      case True
      with body ask cc have r: "r = (?heroes, s1, ?db)"
        by (auto simp: collect_hero_spec)
      have "ask_all cfg (hero_queries cfg [a] heroes db) s = Some ([a], fst (snd r))"
        using ask r by simp
      moreover have "collect_heroes_spec cfg [a] blanks heroes db = Some (fst r, snd (snd r), [])"
        using True r by (simp add: Let_def)
      ultimately show ?thesis by blast
    next
      case False
      with body ask cc have "loop cfg ?heroes (int ?blanks) s1 ?db = Some r"
        by (auto simp: collect_hero_spec)
      from IH [OF this] obtain as where
        rest: "ask_all cfg (hero_queries cfg as ?heroes ?db) s1 = Some (as, fst (snd r))"
        and spec: "collect_heroes_spec cfg as ?blanks ?heroes ?db = Some (fst r, snd (snd r), [])"
        by blast
      have "ask_all cfg (hero_queries cfg (a # as) heroes db) s = Some (a # as, fst (snd r))"
        using ask rest by simp
      moreover
      have "collect_heroes_spec cfg (a # as) blanks heroes db = Some (fst r, snd (snd r), [])"
        using False spec by (simp add: Let_def)
      ultimately show ?thesis by blast
    qed
  qed
qed

lemma hero_queries_rawFirst:
  "q \<in> set (hero_queries cfg answers heroes db) \<Longrightarrow> snd (snd q) = rawFirst"
  by (induction answers arbitrary: heroes db) auto

lemma ask_all_rawFirst:
  "ask_all cfg queries s = Some (answers, s') \<Longrightarrow>
   \<forall>q \<in> set queries. snd (snd q) = rawFirst \<Longrightarrow>
     \<forall>answer \<in> set answers.
        answer \<noteq> ''help'' \<and>
        (\<exists>line inputString. process_input cfg line = Some (inputString, answer))"
proof (induction queries arbitrary: answers s)
  case Nil
  then show ?case by simp
next
  case (Cons q qs)
  obtain query helptext queryType where q: "q = (query, helptext, queryType)"
    by (cases q) auto
  with Cons.prems(2) have raw: "queryType = rawFirst" by simp
  from Cons.prems(1) q obtain a s1 as where
    ask: "getResistantInput cfg query helptext queryType s = Some (a, s1)"
    and rest: "ask_all cfg qs s1 = Some (as, s')" and answers: "answers = a # as"
    by (auto split: option.splits)
  from getResistantInput_loop_last [of cfg query helptext queryType "[]" s "(a, s1)"] ask
  obtain line inputString' firstToken where
    "process_input cfg line = Some (inputString', firstToken)" "firstToken \<noteq> ''help''"
    "validate cfg queryType inputString' firstToken = Some a"
    by (auto simp: getResistantInput_def)
  with raw have "a \<noteq> ''help''" "process_input cfg line = Some (inputString', a)"
    by (auto simp: validate_def)
  with Cons.IH [OF rest] Cons.prems(2) answers show ?case
    by auto
qed

lemma ends_collection_snoc:
  "ends_collection (pre @ [a]) = (a = ''done'' \<or> (a = [] \<and> pre \<noteq> [] \<and> last pre = []))"
  by (auto simp: ends_collection_def Suc_le_eq)

lemma collect_heroes_spec_ends:
  "collect_heroes_spec cfg answers blanks heroes db = Some (heroes', db', rest) \<Longrightarrow>
   blanks = (if pre \<noteq> [] \<and> last pre = [] then 1 else 0) \<Longrightarrow>
     \<exists>used. answers = used @ rest \<and> used \<noteq> [] \<and> ends_collection (pre @ used) \<and>
            (\<forall>k \<in> {1..<length used}. \<not> ends_collection (pre @ take k used))"
proof (induction answers arbitrary: blanks heroes db pre)
  case Nil
  then show ?case by simp
next
  case (Cons a as)
  let ?blanks = "if a = [] then blanks + 1 else 0"
  let ?heroes = "case hero_of_answer cfg db a of None \<Rightarrow> heroes | Some (m, db') \<Rightarrow> heroes @ [m]"
  let ?db = "case hero_of_answer cfg db a of None \<Rightarrow> db | Some (m, db') \<Rightarrow> db'"
  show ?case
  proof (cases "a = ''done'' \<or> 2 \<le> ?blanks")
    case True
    with Cons.prems(1) have rest: "rest = as" by (simp add: Let_def)
    from True Cons.prems(2) have "ends_collection (pre @ [a])"
      by (auto simp: ends_collection_snoc split: if_splits)
    with rest show ?thesis
      by (intro exI [of _ "[a]"]) simp
  next
    case False
    with Cons.prems(1)
    have spec: "collect_heroes_spec cfg as ?blanks ?heroes ?db = Some (heroes', db', rest)"
      by (simp add: Let_def)
    from False Cons.prems(2) have no: "\<not> ends_collection (pre @ [a])"
      by (auto simp: ends_collection_snoc split: if_splits)
    from False Cons.prems(2)
    have "?blanks = (if pre @ [a] \<noteq> [] \<and> last (pre @ [a]) = [] then 1 else 0)"
      by (auto split: if_splits)
    from Cons.IH [OF spec this] obtain used where
      used: "as = used @ rest" "used \<noteq> []" "ends_collection ((pre @ [a]) @ used)"
      "\<forall>k \<in> {1..<length used}. \<not> ends_collection ((pre @ [a]) @ take k used)"
      by blast
    have "\<not> ends_collection (pre @ take k (a # used))" if "k \<in> {1..<length (a # used)}" for k
    proof (cases "k = 1")
      case True
      with no show ?thesis by simp
    next
      case False
      with that obtain j where "k = Suc j" "j \<in> {1..<length used}"
        by (cases k) auto
      with used(4) show ?thesis by simp
    qed
    with used(1-3) show ?thesis
      by (intro exI [of _ "a # used"]) simp
  qed
qed

text \<open>
  C6, as amended.  For every session, on a macro file or on \<open>cin\<close>, the loop
  of \<open>takeHerolevelInput\<close> works on the answers that the query automaton gives
  to its queries in \<open>rawFirst\<close> mode, each the first token of the normalized form
  of a line and none of them \<open>help\<close>.  The command returns exactly when these
  answers reach the end of the collection that the specification describes, and it
  returns what that collection returns: an empty answer increments the blank
  counter, any other answer resets it whether or not it parses and adds a hero
  only if it parses, and the loop ends at the answer \<open>done\<close> or at the second blank
  answer in a row, after which no further query is asked: the list of the answers
  ends the collection, and no shorter beginning of it does.
\<close>

theorem takeHerolevelInput_collects:
  "takeHerolevelInput cfg s db = Some (heroes, s', db') \<longleftrightarrow>
     (\<exists>answers.
        ask_all cfg (hero_queries cfg answers [] db) (hero_introduction s) = Some (answers, s') \<and>
        (\<forall>answer \<in> set answers.
           answer \<noteq> ''help'' \<and>
           (\<exists>line inputString. process_input cfg line = Some (inputString, answer))) \<and>
        ends_collection answers \<and>
        (\<forall>k \<in> {1..<length answers}. \<not> ends_collection (take k answers)) \<and>
        collect_heroes_spec cfg answers 0 [] db = Some (heroes, db', []))"
proof
  assume "takeHerolevelInput cfg s db = Some (heroes, s', db')"
  then have "takeHerolevelInput_loop cfg [] (int 0) (hero_introduction s) db =
               Some (heroes, s', db')"
    by (simp add: takeHerolevelInput_def)
  from takeHerolevelInput_loop_answers [OF this] obtain answers where
    ask: "ask_all cfg (hero_queries cfg answers [] db) (hero_introduction s) = Some (answers, s')"
    and spec: "collect_heroes_spec cfg answers 0 [] db = Some (heroes, db', [])"
    by auto
  have "\<forall>q \<in> set (hero_queries cfg answers [] db). snd (snd q) = rawFirst"
    by (simp add: hero_queries_rawFirst)
  from ask_all_rawFirst [OF ask this]
  have "\<forall>answer \<in> set answers.
           answer \<noteq> ''help'' \<and>
           (\<exists>line inputString. process_input cfg line = Some (inputString, answer))" .
  moreover from collect_heroes_spec_ends [OF spec, of "[]"]
  have "ends_collection answers \<and>
        (\<forall>k \<in> {1..<length answers}. \<not> ends_collection (take k answers))"
    by auto
  ultimately
  show "\<exists>answers.
        ask_all cfg (hero_queries cfg answers [] db) (hero_introduction s) = Some (answers, s') \<and>
        (\<forall>answer \<in> set answers.
           answer \<noteq> ''help'' \<and>
           (\<exists>line inputString. process_input cfg line = Some (inputString, answer))) \<and>
        ends_collection answers \<and>
        (\<forall>k \<in> {1..<length answers}. \<not> ends_collection (take k answers)) \<and>
        collect_heroes_spec cfg answers 0 [] db = Some (heroes, db', [])"
    using ask spec by (intro exI [of _ answers]) simp
next
  assume "\<exists>answers.
        ask_all cfg (hero_queries cfg answers [] db) (hero_introduction s) = Some (answers, s') \<and>
        (\<forall>answer \<in> set answers.
           answer \<noteq> ''help'' \<and>
           (\<exists>line inputString. process_input cfg line = Some (inputString, answer))) \<and>
        ends_collection answers \<and>
        (\<forall>k \<in> {1..<length answers}. \<not> ends_collection (take k answers)) \<and>
        collect_heroes_spec cfg answers 0 [] db = Some (heroes, db', [])"
  then obtain answers where
    "ask_all cfg (hero_queries cfg answers [] db) (hero_introduction s) = Some (answers, s')"
    "collect_heroes_spec cfg answers 0 [] db = Some (heroes, db', [])"
    by blast
  from takeHerolevelInput_loop_returns [OF this]
  show "takeHerolevelInput cfg s db = Some (heroes, s', db')"
    by (simp add: takeHerolevelInput_def)
qed

text \<open>
  The two examples of the specification, on \<open>cin\<close>, and a macro file read without
  showing it: its lines hold a comment, capital letters, a call for help, a hero
  that does not exist, a blank first token and a second token.
\<close>

theorem takeHerolevelInput_collects_witness:
  "takeHerolevelInput example_config
     (IOManager (stream_of (lines_text [''hero1:1'', '''', ''''] @ ''wolf''))) example_database =
     Some ([2],
       (hero_introduction (IOManager (stream_of ''wolf'')))
         \<lparr>cout := cout (hero_introduction (IOManager (stream_of ''wolf'')))
                    @ ''Enter Hero 1: Enter Hero 2: Enter Hero 2: ''\<rparr>,
       example_database_hero1) \<and>
   takeHerolevelInput example_config
     (IOManager (stream_of (lines_text [''hero1:1'', ''done''] @ ''wolf''))) example_database =
     Some ([2],
       (hero_introduction (IOManager (stream_of ''wolf'')))
         \<lparr>cout := cout (hero_introduction (IOManager (stream_of ''wolf'')))
                    @ ''Enter Hero 1: Enter Hero 2: ''\<rparr>,
       example_database_hero1) \<and>
   takeHerolevelInput example_config example_hero_script example_database =
     Some ([2, 3],
       (initMacroFile (Some (lines_text [''hero1:7''])) False (IOManager (stream_of ''wolf'')))
         \<lparr>cout := heroInputHelp example_config\<rparr>,
       example_database_heroes)"
proof -
  let ?s1 = "IOManager (stream_of (lines_text [''hero1:1'', '''', ''''] @ ''wolf''))"
  let ?s2 = "IOManager (stream_of (lines_text [''hero1:1'', ''done''] @ ''wolf''))"
  let ?t1 = "(hero_introduction (IOManager (stream_of ''wolf'')))
         \<lparr>cout := cout (hero_introduction (IOManager (stream_of ''wolf'')))
                    @ ''Enter Hero 1: Enter Hero 2: Enter Hero 2: ''\<rparr>"
  let ?t2 = "(hero_introduction (IOManager (stream_of ''wolf'')))
         \<lparr>cout := cout (hero_introduction (IOManager (stream_of ''wolf'')))
                    @ ''Enter Hero 1: Enter Hero 2: ''\<rparr>"
  let ?t3 = "(initMacroFile (Some (lines_text [''hero1:7''])) False (IOManager (stream_of ''wolf'')))
         \<lparr>cout := heroInputHelp example_config\<rparr>"
  let ?a1 = "[''hero1:1'', '''', '''']"
  let ?a2 = "[''hero1:1'', ''done'']"
  let ?a3 = "[''hero1:1'', ''nobody:3'', '''', ''hero2:5'', ''done'']"
  have token:
    "process_input example_config ''hero1:1'' = Some (''hero1:1'', ''hero1:1'')"
    "process_input example_config '''' = Some ('''', '''')"
    "process_input example_config ''done'' = Some (''done'', ''done'')"
    "process_input example_config ''nobody:3'' = Some (''nobody:3'', ''nobody:3'')"
    "process_input example_config ''hero2:5'' = Some (''hero2:5'', ''hero2:5'')"
    by code_simp+
  have ask1: "ask_all example_config (hero_queries example_config ?a1 [] example_database)
                (hero_introduction ?s1) = Some (?a1, ?t1)"
    by code_simp
  have spec1: "collect_heroes_spec example_config ?a1 0 [] example_database =
                 Some ([2], example_database_hero1, [])"
    by code_simp
  have ask2: "ask_all example_config (hero_queries example_config ?a2 [] example_database)
                (hero_introduction ?s2) = Some (?a2, ?t2)"
    by code_simp
  have spec2: "collect_heroes_spec example_config ?a2 0 [] example_database =
                 Some ([2], example_database_hero1, [])"
    by code_simp
  have ask3: "ask_all example_config (hero_queries example_config ?a3 [] example_database)
                (hero_introduction example_hero_script) = Some (?a3, ?t3)"
    by code_simp
  have spec3: "collect_heroes_spec example_config ?a3 0 [] example_database =
                 Some ([2, 3], example_database_heroes, [])"
    by code_simp
  have first1: "\<forall>answer \<in> set ?a1. answer \<noteq> ''help'' \<and>
      (\<exists>line inputString. process_input example_config line = Some (inputString, answer))"
    using token by auto
  have first2: "\<forall>answer \<in> set ?a2. answer \<noteq> ''help'' \<and>
      (\<exists>line inputString. process_input example_config line = Some (inputString, answer))"
    using token by auto
  have first3: "\<forall>answer \<in> set ?a3. answer \<noteq> ''help'' \<and>
      (\<exists>line inputString. process_input example_config line = Some (inputString, answer))"
    using token by auto
  have ends1: "ends_collection ?a1"
    "\<forall>k \<in> {1..<length ?a1}. \<not> ends_collection (take k ?a1)"
    by code_simp+
  have ends2: "ends_collection ?a2"
    "\<forall>k \<in> {1..<length ?a2}. \<not> ends_collection (take k ?a2)"
    by code_simp+
  have ends3: "ends_collection ?a3"
    "\<forall>k \<in> {1..<length ?a3}. \<not> ends_collection (take k ?a3)"
    by code_simp+
  have run1: "takeHerolevelInput example_config ?s1 example_database =
                Some ([2], ?t1, example_database_hero1)"
    using ask1 first1 ends1 spec1
    by (intro takeHerolevelInput_collects [THEN iffD2] exI [of _ ?a1] conjI)
  have run2: "takeHerolevelInput example_config ?s2 example_database =
                Some ([2], ?t2, example_database_hero1)"
    using ask2 first2 ends2 spec2
    by (intro takeHerolevelInput_collects [THEN iffD2] exI [of _ ?a2] conjI)
  have run3: "takeHerolevelInput example_config example_hero_script example_database =
                Some ([2, 3], ?t3, example_database_heroes)"
    using ask3 first3 ends3 spec3
    by (intro takeHerolevelInput_collects [THEN iffD2] exI [of _ ?a3] conjI)
  from run1 run2 run3 show ?thesis
    by (intro conjI)
qed

text \<open>
  The claim as it stands speaks of the lines.  Two lines that start with a blank
  are not empty and are not \<open>done\<close>, yet the loop ends behind them with no hero,
  and leaves the lines \<open>hero1:1\<close> and \<open>done\<close> unread; and with a line \<open>help\<close>
  between two empty lines, which are then not two in a row, the loop ends at the
  second of them.  On these lines the collection of the specification goes on to
  \<open>done\<close> and returns one hero.
\<close>

theorem takeHerolevelInput_collects_counterexample:
  "map_option fst (takeHerolevelInput example_config
     (IOManager (stream_of (lines_text ['' hero1:1'', '' hero2:2'', ''hero1:1'', ''done''])))
     example_database) = Some [] \<and>
   map_option (content \<circ> cin \<circ> fst \<circ> snd) (takeHerolevelInput example_config
     (IOManager (stream_of (lines_text ['' hero1:1'', '' hero2:2'', ''hero1:1'', ''done''])))
     example_database) = Some (lines_text [''hero1:1'', ''done'']) \<and>
   collect_heroes_spec example_config ['' hero1:1'', '' hero2:2'', ''hero1:1'', ''done''] 0 []
     example_database = Some ([2], example_database_hero1, []) \<and>
   map_option fst (takeHerolevelInput example_config
     (IOManager (stream_of (lines_text ['''', ''help'', '''', ''hero1:1'', ''done''])))
     example_database) = Some [] \<and>
   map_option (content \<circ> cin \<circ> fst \<circ> snd) (takeHerolevelInput example_config
     (IOManager (stream_of (lines_text ['''', ''help'', '''', ''hero1:1'', ''done''])))
     example_database) = Some (lines_text [''hero1:1'', ''done'']) \<and>
   collect_heroes_spec example_config ['''', ''help'', '''', ''hero1:1'', ''done''] 0 []
     example_database = Some ([2], example_database_hero1, [])"
  by code_simp

section \<open>Quest references\<close>

lemma find_str_single:
  assumes "c \<notin> set xs"
  shows "find_str (xs @ c # ys) [c] 0 = Some (length xs)"
proof (cases "find_str (xs @ c # ys) [c] 0")
  case None
  from find_str_None [OF None, of "length xs"] show ?thesis by simp
next
  case (Some n)
  from find_str_Some [OF Some]
  have n: "n + 1 \<le> length (xs @ c # ys)" "take 1 (drop n (xs @ c # ys)) = [c]"
    "\<forall>m < n. take 1 (drop m (xs @ c # ys)) \<noteq> [c]"
    by simp_all
  have "n = length xs"
  proof (rule ccontr)
    assume neq: "n \<noteq> length xs"
    show False
    proof (cases "n < length xs")
      case True
      then have "drop n (xs @ c # ys) = (xs @ c # ys) ! n # drop (Suc n) (xs @ c # ys)"
        by (intro Cons_nth_drop_Suc [symmetric]) simp
      with True have "take 1 (drop n (xs @ c # ys)) = [xs ! n]"
        by (simp add: nth_append)
      with n(2) have "xs ! n = c" by simp
      with True assms show False by (metis nth_mem)
    next
      case False
      with neq have "length xs < n" by simp
      with n(3) have "take 1 (drop (length xs) (xs @ c # ys)) \<noteq> [c]" by blast
      then show False by simp
    qed
  qed
  with Some show ?thesis by simp
qed

lemma isdigit_facts:
  assumes "isdigit d"
  shows "\<not> isspace d" "d \<noteq> CHR ''-''" "d \<noteq> CHR ''+''" "0 \<le> digit_value d" "digit_value d \<le> 9"
  using assms by (auto simp: isdigit_def isspace_def digit_value_def)

lemma stoi_digit: "isdigit d \<Longrightarrow> stoi [d] = Inr (digit_value d)"
  using isdigit_facts [of d]
  by (simp add: stoi_def stoi_pos_def digits_value_def)

lemma makeArmyFromStrings_loop_amount:
  "makeArmyFromStrings_loop cfg stringMonsters army db = (Inr army', db') \<Longrightarrow>
     monsterAmount army' = monsterAmount army + int (length stringMonsters)"
proof (induction stringMonsters arbitrary: army db)
  case Nil
  then show ?case by simp
next
  case (Cons x xs)
  from Cons.prems obtain m db1 where
    "makeArmyFromStrings_loop cfg xs (add army m) db1 = (Inr army', db')"
    by (auto split: if_splits sum.splits option.splits prod.splits)
  from Cons.IH [OF this] show ?case
    by (simp add: add_def)
qed

text \<open>
  C2, as amended.  For a token made of the quest prefix, the text of a quest
  number, the one-character separator and a tier of one decimal digit (what may
  follow that digit is not read), where the separator occurs neither in the prefix
  nor in the number and the quest, of at most \<open>ARMY_MAX_SIZE\<close> names, resolves to
  an army, \<open>makeInstanceFromString\<close> returns the instance with that army as its
  target, \<open>maxCombatants\<close> equal to \<open>ARMY_MAX_SIZE - (tier - 1)\<close> and \<open>targetSize\<close>
  equal to the unit count of the army, which is the number of names of the quest.
\<close>

theorem quest_reference_instance:
  assumes "QUEST_NUMBER_SEPARTOR cfg = [dash]"
    and "dash \<notin> set (QUEST_PREFIX cfg)" and "dash \<notin> set number"
    and "stoi number = Inr questNumber"
    and "map_of (quests db) questNumber = Some quest"
    and "length quest \<le> ARMY_MAX_SIZE cfg"
    and "makeArmyFromStrings cfg quest db = (Inr army, db')"
    and "isdigit tier"
  shows "makeInstanceFromString cfg (QUEST_PREFIX cfg @ number @ [dash, tier] @ rest) db =
           Some (Inr \<lparr>target = army,
                 maxCombatants = int (ARMY_MAX_SIZE cfg) - (digit_value tier - 1),
                 targetSize = monsterAmount army\<rparr>, db') \<and>
         monsterAmount army = int (length quest)"
proof -
  let ?s = "QUEST_PREFIX cfg @ number @ [dash, tier] @ rest"
  let ?p = "length (QUEST_PREFIX cfg)"
  have "find_str ((QUEST_PREFIX cfg @ number) @ dash # (tier # rest)) [dash] 0 =
          Some (length (QUEST_PREFIX cfg @ number))"
    using assms(2,3) by (intro find_str_single) simp
  then have dashPosition: "find_str ?s (QUEST_NUMBER_SEPARTOR cfg) 0 = Some (?p + length number)"
    using assms(1) by simp
  have number: "substr ?s ?p (Some (?p + length number - ?p)) = Some number"
    by (simp add: substr_def)
  have tier: "substr ?s (?p + length number + 1) (Some 1) = Some [tier]"
    by (simp add: substr_def)
  have amount: "monsterAmount army = int (length quest)"
    using makeArmyFromStrings_loop_amount [of cfg quest empty_Army db army db'] assms(7)
    by (simp add: makeArmyFromStrings_def empty_Army_def)
  have "makeInstanceFromString cfg ?s db =
           Some (Inr \<lparr>target = army,
                 maxCombatants = int (ARMY_MAX_SIZE cfg) - (digit_value tier - 1),
                 targetSize = monsterAmount army\<rparr>, db')"
    unfolding makeInstanceFromString_def
    using dashPosition number tier assms(4,5,7) stoi_digit [OF assms(8)]
    by (simp add: nat_add_distrib quests_at_def)
  with amount show ?thesis by simp
qed


theorem quest_reference_instance_witness:
  "makeInstanceFromString example_config ''q3-2'' example_database =
     Some (Inr \<lparr>target = \<lparr>monsters = [0, 1], monsterAmount = 2\<rparr>,
           maxCombatants = int (ARMY_MAX_SIZE example_config) - 1, targetSize = 2\<rparr>,
      example_database)"
proof -
  have sep: "QUEST_NUMBER_SEPARTOR example_config = [CHR ''-'']"
    and prefix: "CHR ''-'' \<notin> set (QUEST_PREFIX example_config)"
    and number: "CHR ''-'' \<notin> set ''3''" "stoi ''3'' = Inr 3"
    and quest: "map_of (quests example_database) 3 = Some [''panda'', ''wolf'']"
    and size: "length [''panda'', ''wolf''] \<le> ARMY_MAX_SIZE example_config"
    and army: "makeArmyFromStrings example_config [''panda'', ''wolf''] example_database =
                 (Inr \<lparr>monsters = [0, 1], monsterAmount = 2\<rparr>, example_database)"
    and tier: "isdigit CHR ''2''" "digit_value CHR ''2'' = 2"
    and token: "QUEST_PREFIX example_config @ ''3'' @ [CHR ''-'', CHR ''2''] @ [] = ''q3-2''"
    by code_simp+
  from quest_reference_instance [OF sep prefix number quest size army tier(1), of "[]"]
    tier(2) token
  show ?thesis by simp
qed

text \<open>
  The claim as it stands promises \<open>ARMY_MAX_SIZE - 11\<close> for tier 12; only the
  \<open>1\<close> is read, and \<open>maxCombatants\<close> is \<open>ARMY_MAX_SIZE\<close>.
\<close>

theorem quest_reference_instance_counterexample:
  "makeInstanceFromString example_config ''q3-12'' example_database =
     Some (Inr \<lparr>target = \<lparr>monsters = [0, 1], monsterAmount = 2\<rparr>, maxCombatants = 6, targetSize = 2\<rparr>,
      example_database) \<and>
   int (ARMY_MAX_SIZE example_config) - (12 - 1) = - 5"
  by code_simp

end
